theory Spec2Isabelle
  imports Main "HOL-Library.Word"
begin

section \<open>Bytes, reports and results\<close>

text \<open>
  The driver in \<^verbatim>\<open>DeviceAjazz\<close> talks to the panel through HID reports, which are
  slices of bytes. A Go \<^verbatim>\<open>uint8\<close> is an \<open>8 word\<close>, a slice is a list.
\<close>

type_synonym byte = "8 word"
type_synonym report = "byte list"

text \<open>
  The Go \<^verbatim>\<open>error\<close> values the driver produces. A failed \<^verbatim>\<open>device.Write\<close> carries the
  sequence number of the write that failed, so that two transport errors of one session
  can be told apart. \<^verbatim>\<open>SetImage\<close> wraps the errors of the codec and of the upload
  (\<^verbatim>\<open>fmt.Errorf("cannot send image data: %v", err)\<close>).
\<close>

datatype error =
    TransportError nat
  | InvalidDataLength nat
  | WrongDimensions nat
  | CodecError
  | CannotConvert error
  | CannotSend error

text \<open>
  What stops a call without an \<^verbatim>\<open>error\<close> value: a run-time panic of an index
  expression (the index and the length of the indexed slice), and a second
  \<^verbatim>\<open>Lock\<close> of the sleep mutex by the goroutine that holds it, which never returns.
\<close>

datatype fault =
    IndexOutOfRange nat nat
  | Deadlock

text \<open>
  The result of a function returning \<^verbatim>\<open>error\<close>: \<open>Success\<close> is \<^verbatim>\<open>nil\<close>,
  \<open>Failure e\<close> a returned error, \<open>Abort\<close> a panic or a hang. A caller's
  \<^verbatim>\<open>if err != nil { return err }\<close> passes a \<open>Failure\<close> on; an \<open>Abort\<close> ends every
  caller, since nothing in the package recovers.
\<close>

datatype outcome =
    Success
  | Failure error
  | Abort fault

section \<open>Key Index Mapper\<close>

text \<open>
  \<^verbatim>\<open>elgato_to_ajazz\<close> and \<^verbatim>\<open>ajazz_to_elgato\<close> index a slice literal of 18 entries.
  The first guards its index with \<^verbatim>\<open>index > 17\<close>, so the access is always in range.
  The second guards with \<^verbatim>\<open>index > 18\<close> and reads at \<^verbatim>\<open>index-1\<close>, computed in
  \<^verbatim>\<open>uint8\<close>: the access is checked by the Go run time and panics out of range.
  The \<^verbatim>\<open>columns\<close> parameter is unused in both.
\<close>

definition elgato_table :: "byte list" where
  "elgato_table = [12, 9, 6, 3, 0, 15, 13, 10, 7, 4, 1, 16, 14, 11, 8, 5, 2, 17]"

definition ajazz_table :: "byte list" where
  "ajazz_table = [4, 10, 16, 3, 9, 15, 2, 8, 14, 1, 7, 13, 0, 6, 12, 5, 11, 17]"

definition elgato_to_ajazz :: "byte \<Rightarrow> byte \<Rightarrow> byte" where
  "elgato_to_ajazz index columns =
     (if index > 17 then index else elgato_table ! unat index + 1)"

definition ajazz_to_elgato :: "byte \<Rightarrow> byte \<Rightarrow> fault + byte" where
  "ajazz_to_elgato index columns =
     (if index > 18 then Inr index
      else let j = unat (index - 1) in
        if j < length ajazz_table then Inr (ajazz_table ! j)
        else Inl (IndexOutOfRange j (length ajazz_table)))"

section \<open>The session\<close>

text \<open>
  An image as the driver sees it: the size of its bounds and its pixels, which only the
  codec reads.
\<close>

record image =
  Dx :: int
  Dy :: int
  Pix :: "byte list"

text \<open>
  The fields of \<^verbatim>\<open>DeviceAjazz\<close> that the modelled operations read or write.
  \<open>sleepMutex\<close> is true while \<^verbatim>\<open>d.sleepMutex\<close> is write-locked. \<open>written\<close> stands for
  the HID handle \<^verbatim>\<open>d.device\<close>: the reports handed to \<^verbatim>\<open>device.Write\<close> so far, oldest
  first. The transmit buffer \<^verbatim>\<open>d.cmd\<close> is not a field: every command overwrites all of
  its 512 bytes from \<^verbatim>\<open>d.zero\<close> before it builds its frame, so no command reads what
  an earlier one left there. \<^verbatim>\<open>d.mutex\<close> is left out as well: each command locks it on
  entry and unlocks it on return, and no command calls another while it holds it.
  \<^verbatim>\<open>lastActionTime\<close> and \<^verbatim>\<open>sleepCancel\<close> belong to the idle timer and the key reader,
  which run beside these operations; \<^verbatim>\<open>Wake\<close> stamps the first and reads neither.
  \<^verbatim>\<open>Pixels\<close> is a \<^verbatim>\<open>uint\<close> far below the range where \<^verbatim>\<open>int(d.GetPixels())\<close> wraps.
\<close>

record DeviceAjazz =
  Columns :: byte
  Rows :: byte
  Keys :: byte
  Pixels :: nat
  flipImage :: "image \<Rightarrow> image"
  toImageFormat :: "image \<Rightarrow> error + byte list"
  asleep :: bool
  sleepMutex :: bool
  fadeDuration :: int
  brightness :: byte
  preSleepBrightness :: byte
  written :: "report list"

text \<open>
  What the driver takes from outside the struct: the platform test
  \<^verbatim>\<open>runtime.GOOS != "windows"\<close>; the HID library, of which only the outcome of each write
  matters (\<open>write_error h k\<close> says that the write number \<open>k\<close> of the session, counted
  from 0, returns an error); and the brightness ramp of \<^verbatim>\<open>Fade\<close>, which is computed in
  \<^verbatim>\<open>float64\<close>. \<open>fade_inf h start end duration\<close> is the test that the step
  \<^verbatim>\<open>(float64(end) - float64(start)) / float64(duration/fadeDelay)\<close> is infinite, and
  \<open>fade_current h start end duration k\<close> gives the two conversions of \<^verbatim>\<open>current\<close> in
  iteration \<open>k\<close> of the loop: \<^verbatim>\<open>int8(current)\<close> as an integer and
  \<^verbatim>\<open>uint8(current)\<close>. The constant \<^verbatim>\<open>fadeDelay\<close> is declared in another file of the
  package. No theorem below depends on the values of the ramp.
\<close>

record host =
  windows :: bool
  write_error :: "nat \<Rightarrow> bool"
  fade_inf :: "byte \<Rightarrow> byte \<Rightarrow> int \<Rightarrow> bool"
  fade_current :: "byte \<Rightarrow> byte \<Rightarrow> int \<Rightarrow> nat \<Rightarrow> int \<times> byte"

section \<open>Chunked Report Transport\<close>

text \<open>
  Go's \<^verbatim>\<open>copy(dst, src)\<close> overwrites the first \<open>min (len dst) (len src)\<close> elements of
  \<open>dst\<close>; \<open>copy_at dst off src\<close> is \<^verbatim>\<open>copy(dst[off:], src)\<close>.
\<close>

definition copy_go :: "'a list \<Rightarrow> 'a list \<Rightarrow> 'a list" where
  "copy_go dst src = take (length dst) src @ drop (length src) dst"

definition copy_at :: "'a list \<Rightarrow> nat \<Rightarrow> 'a list \<Rightarrow> 'a list" where
  "copy_at dst off src = take off dst @ copy_go (drop off dst) src"

text \<open>\<^verbatim>\<open>d.zero = make([]byte, 512)\<close>, allocated by \<^verbatim>\<open>Open\<close> and never written.\<close>

definition zero :: "byte list" where
  "zero = replicate 512 0"

text \<open>\<^verbatim>\<open>d.device.Write(ptr)\<close>: the report is logged, and the host decides the outcome.\<close>

definition device_Write :: "host \<Rightarrow> report \<Rightarrow> DeviceAjazz \<Rightarrow> DeviceAjazz \<times> outcome" where
  "device_Write h ptr d =
     (d\<lparr>written := written d @ [ptr]\<rparr>,
      if write_error h (length (written d)) then Failure (TransportError (length (written d)))
      else Success)"

text \<open>
  The report \<^verbatim>\<open>cmdWrite\<close> builds. The first branch is taken when
  \<^verbatim>\<open>runtime.GOOS != "windows" && data[0] == 0\<close>.
\<close>

definition report_id_frame :: "byte list \<Rightarrow> report" where
  "report_id_frame data =
     (let ptr = replicate 513 0;
          ptr = ptr[0 := 0];
          ptr = copy_at ptr 1 data
      in if length data + 1 < 513
         then copy_at ptr (length data + 1) (take (513 - 1 - length data) zero)
         else ptr)"

definition plain_frame :: "byte list \<Rightarrow> report" where
  "plain_frame data =
     (let ptr = replicate 512 0;
          ptr = copy_go ptr data
      in if length data < 512
         then copy_at ptr (length data) (take (512 - length data) zero)
         else ptr)"

text \<open>
  \<^verbatim>\<open>cmdWrite\<close>. Off Windows the condition reads \<^verbatim>\<open>data[0]\<close>, which panics on an empty
  slice; on Windows \<^verbatim>\<open>&&\<close> stops before it.
\<close>

definition cmdWrite :: "host \<Rightarrow> byte list \<Rightarrow> DeviceAjazz \<Rightarrow> DeviceAjazz \<times> outcome" where
  "cmdWrite h data d =
     (if \<not> windows h then
        (case data of
           [] \<Rightarrow> (d, Abort (IndexOutOfRange 0 0))
         | b # _ \<Rightarrow>
             if b = 0 then device_Write h (report_id_frame data) d
             else device_Write h (plain_frame data) d)
      else device_Write h (plain_frame data) d)"

text \<open>
  The payload loop that \<^verbatim>\<open>cmdLogo\<close>, \<^verbatim>\<open>cmdBatchRetry\<close> and \<^verbatim>\<open>cmdBatch\<close> share word
  for word:
  \<^verbatim>\<open>for i := 0; i < size; i += 512 { if i+512 < size { ptr := data[i : i+512]; ... } else { ptr := data[i:]; ... } }\<close>,
  where a failed \<^verbatim>\<open>cmdWrite\<close> returns its error at once. \<open>i\<close> is a Go \<^verbatim>\<open>int\<close>, which
  cannot overflow below the length of a slice plus 512.
\<close>

function send_chunks :: "host \<Rightarrow> byte list \<Rightarrow> nat \<Rightarrow> DeviceAjazz \<Rightarrow> DeviceAjazz \<times> outcome" where
  "send_chunks h data i d =
     (if i < length data then
        (let ptr = (if i + 512 < length data then take 512 (drop i data) else drop i data)
         in case cmdWrite h ptr d of
              (d', Success) \<Rightarrow> send_chunks h data (i + 512) d'
            | (d', r) \<Rightarrow> (d', r))
      else (d, Success))"
  by pat_completeness auto
termination
  by (relation "measure (\<lambda>(h, data, i, d). length data - i)") auto

section \<open>Retry and Recovery Wrapper\<close>

text \<open>
  Modelled from the spec: \<^verbatim>\<open>retry.Do\<close> with the options \<^verbatim>\<open>retry.Attempts\<close> and
  \<^verbatim>\<open>retry.OnRetry\<close>, of the package \<^verbatim>\<open>github.com/avast/retry-go/v4\<close>, which the driver
  imports and whose source is not among the repository's files. Section 4.4 of the
  specification: the wrapper re-executes a failed operation up to a bounded attempt
  count, a retry follows the failure at once, the hook given as \<^verbatim>\<open>OnRetry\<close> runs before
  each retry, and exhausting the attempts surfaces the last error. \<open>n\<close> counts the
  failures so far and is what the hook receives. The specification gives the count 0
  no meaning, and no call in the sources passes it (each passes 3): the statements
  below that go through the wrapper take the count 3 or a positive count.
\<close>

primrec retry_from ::
  "('s \<Rightarrow> 's \<times> outcome) \<Rightarrow> (nat \<Rightarrow> error \<Rightarrow> 's \<Rightarrow> 's) \<Rightarrow> nat \<Rightarrow> nat \<Rightarrow> 's \<Rightarrow> 's \<times> outcome" where
  "retry_from f onRetry n 0 s = f s"
| "retry_from f onRetry n (Suc left) s =
     (case f s of
        (s', Failure e) \<Rightarrow> retry_from f onRetry (Suc n) left (onRetry n e s')
      | (s', r) \<Rightarrow> (s', r))"

definition retry_Do ::
  "('s \<Rightarrow> 's \<times> outcome) \<Rightarrow> (nat \<Rightarrow> error \<Rightarrow> 's \<Rightarrow> 's) \<Rightarrow> nat \<Rightarrow> 's \<Rightarrow> 's \<times> outcome" where
  "retry_Do f onRetry attempts s = retry_from f onRetry 0 (attempts - 1) s"

text \<open>The hook of a \<^verbatim>\<open>retry.Do\<close> that is given no \<^verbatim>\<open>OnRetry\<close> option.\<close>

definition no_hook :: "nat \<Rightarrow> error \<Rightarrow> 's \<Rightarrow> 's" where
  "no_hook n e s = s"

definition WriteRetry :: "host \<Rightarrow> byte list \<Rightarrow> DeviceAjazz \<Rightarrow> DeviceAjazz \<times> outcome" where
  "WriteRetry h data d = retry_Do (cmdWrite h data) no_hook 3 d"

section \<open>Frame Encoder and Command Set\<close>

text \<open>\<^verbatim>\<open>d.cmd = make([]byte, 512)\<close>; each command starts with \<^verbatim>\<open>copy(d.cmd, d.zero)\<close>.\<close>

definition cmd :: "byte list" where
  "cmd = replicate 512 0"

text \<open>\<^verbatim>\<open>binary.BigEndian.PutUint32(b[off:], v)\<close>.\<close>

definition PutUint32 :: "byte list \<Rightarrow> nat \<Rightarrow> 32 word \<Rightarrow> byte list" where
  "PutUint32 b off v =
     b[off := ucast (drop_bit 24 v), off + 1 := ucast (drop_bit 16 v),
       off + 2 := ucast (drop_bit 8 v), off + 3 := ucast v]"

definition light_header :: "byte list" where
  "light_header = [0x43, 0x52, 0x54, 0x00, 0x00, 0x4c, 0x49, 0x47, 0x00, 0x00]"

definition clear_header :: "byte list" where
  "clear_header =
     [0x43, 0x52, 0x54, 0x00, 0x00, 0x43, 0x4c, 0x45, 0x00, 0x00, 0x00, 0xff, 0x00, 0x00, 0x00, 0x00]"

definition logo_header :: "byte list" where
  "logo_header =
     [0x43, 0x52, 0x54, 0x00, 0x00, 0x4c, 0x4f, 0x47, 0x00, 0x12, 0xc3, 0xc0, 0x01, 0x00, 0x00, 0x00]"

definition batch_header :: "byte list" where
  "batch_header =
     [0x43, 0x52, 0x54, 0x00, 0x00, 0x42, 0x41, 0x54, 0x00, 0x00, 0x0c, 0x48, 0x0d, 0x00, 0x00, 0x00]"

definition light_frame :: "byte \<Rightarrow> byte list" where
  "light_frame b =
     (let c = copy_go cmd zero;
          c = copy_go c light_header
      in c[10 := b])"

definition cmdLight :: "host \<Rightarrow> byte \<Rightarrow> DeviceAjazz \<Rightarrow> DeviceAjazz \<times> outcome" where
  "cmdLight h b d = WriteRetry h (light_frame b) d"

definition cmdLightRetry :: "host \<Rightarrow> byte \<Rightarrow> nat \<Rightarrow> DeviceAjazz \<Rightarrow> DeviceAjazz \<times> outcome" where
  "cmdLightRetry h b retryAttempts d = retry_Do (cmdLight h b) no_hook retryAttempts d"

definition clear_frame :: "byte \<Rightarrow> byte list" where
  "clear_frame target =
     (let c = copy_go cmd zero;
          c = copy_go c clear_header
      in c[11 := target])"

definition cmdClear :: "host \<Rightarrow> byte \<Rightarrow> DeviceAjazz \<Rightarrow> DeviceAjazz \<times> outcome" where
  "cmdClear h target d =
     (let target = (if target \<noteq> 0xff then elgato_to_ajazz target (Columns d) else target)
      in WriteRetry h (clear_frame target) d)"

definition cmdClearRetry :: "host \<Rightarrow> byte \<Rightarrow> nat \<Rightarrow> DeviceAjazz \<Rightarrow> DeviceAjazz \<times> outcome" where
  "cmdClearRetry h target retryAttempts d = retry_Do (cmdClear h target) no_hook retryAttempts d"

text \<open>
  \<^verbatim>\<open>cmdLogo\<close> checks the length first. It then builds the header in \<^verbatim>\<open>d.cmd\<close> but never
  writes it: what it sends is the payload loop alone.
\<close>

definition cmdLogo :: "host \<Rightarrow> byte list \<Rightarrow> DeviceAjazz \<Rightarrow> DeviceAjazz \<times> outcome" where
  "cmdLogo h data d =
     (if length data \<noteq> 854 * 480 * 3 then (d, Failure (InvalidDataLength (length data)))
      else send_chunks h data 0 d)"

definition cmdLogoRetry :: "host \<Rightarrow> byte list \<Rightarrow> nat \<Rightarrow> DeviceAjazz \<Rightarrow> DeviceAjazz \<times> outcome" where
  "cmdLogoRetry h data retryAttempts d = retry_Do (cmdLogo h data) no_hook retryAttempts d"

text \<open>
  The batch header: the target goes to offset 12, then \<^verbatim>\<open>uint32(size)\<close> overwrites
  offsets 8 to 11 in big-endian order.
\<close>

definition batch_frame :: "byte \<Rightarrow> nat \<Rightarrow> byte list" where
  "batch_frame target sz =
     (let c = copy_go cmd zero;
          c = copy_go c batch_header;
          c = c[12 := target]
      in PutUint32 c 8 (word_of_nat sz))"

text \<open>
  The function that \<^verbatim>\<open>cmdBatchRetry\<close> hands to \<^verbatim>\<open>retry.Do\<close>: it maps \<^verbatim>\<open>index\<close> itself,
  writes the header with \<^verbatim>\<open>cmdWrite\<close> and runs the payload loop.
\<close>

definition cmdBatchRetry_func :: "host \<Rightarrow> byte \<Rightarrow> byte list \<Rightarrow> DeviceAjazz \<Rightarrow> DeviceAjazz \<times> outcome" where
  "cmdBatchRetry_func h index data d =
     (let target = elgato_to_ajazz index (Columns d)
      in case cmdWrite h (batch_frame target (length data)) d of
           (d', Success) \<Rightarrow> send_chunks h data 0 d'
         | (d', r) \<Rightarrow> (d', r))"

text \<open>
  Its \<^verbatim>\<open>OnRetry\<close> hook, \<^verbatim>\<open>func(n uint, err error) { d.cmdClear(index) }\<close>, which drops
  the result of \<^verbatim>\<open>cmdClear\<close>.
\<close>

definition cmdBatchRetry_onRetry :: "host \<Rightarrow> byte \<Rightarrow> nat \<Rightarrow> error \<Rightarrow> DeviceAjazz \<Rightarrow> DeviceAjazz" where
  "cmdBatchRetry_onRetry h index n err d = fst (cmdClear h index d)"

definition cmdBatchRetry :: "host \<Rightarrow> byte \<Rightarrow> byte list \<Rightarrow> nat \<Rightarrow> DeviceAjazz \<Rightarrow> DeviceAjazz \<times> outcome" where
  "cmdBatchRetry h index data retryAttempts d =
     retry_Do (cmdBatchRetry_func h index data) (cmdBatchRetry_onRetry h index) retryAttempts d"

text \<open>
  \<^verbatim>\<open>cmdBatch\<close>, which no function of the file calls: it maps \<^verbatim>\<open>target+1\<close> (in \<^verbatim>\<open>uint8\<close>)
  and writes the header with \<^verbatim>\<open>WriteRetry\<close>.
\<close>

definition cmdBatch :: "host \<Rightarrow> byte \<Rightarrow> byte list \<Rightarrow> DeviceAjazz \<Rightarrow> DeviceAjazz \<times> outcome" where
  "cmdBatch h target data d =
     (let target = elgato_to_ajazz (target + 1) (Columns d)
      in case WriteRetry h (batch_frame target (length data)) d of
           (d', Success) \<Rightarrow> send_chunks h data 0 d'
         | (d', r) \<Rightarrow> (d', r))"

section \<open>Images\<close>

definition SetImage :: "host \<Rightarrow> byte \<Rightarrow> image \<Rightarrow> DeviceAjazz \<Rightarrow> DeviceAjazz \<times> outcome" where
  "SetImage h index img d =
     (if Dy img \<noteq> int (Pixels d) \<or> Dx img \<noteq> int (Pixels d)
      then (d, Failure (WrongDimensions (Pixels d)))
      else case toImageFormat d (flipImage d img) of
             Inl e \<Rightarrow> (d, Failure (CannotConvert e))
           | Inr imageBytes \<Rightarrow>
               (case cmdBatchRetry h index imageBytes 3 d of
                  (d', Failure e) \<Rightarrow> (d', Failure (CannotSend e))
                | (d', r) \<Rightarrow> (d', r)))"

text \<open>
  The image \<^verbatim>\<open>Clear\<close> draws: \<^verbatim>\<open>image.NewRGBA\<close> of \<open>p\<close> by \<open>p\<close> pixels filled with
  \<^verbatim>\<open>color.RGBA{0, 0, 0, 255}\<close>.
\<close>

definition black_image :: "nat \<Rightarrow> image" where
  "black_image p = \<lparr>Dx = int p, Dy = int p, Pix = concat (replicate (p * p) [0, 0, 0, 255])\<rparr>"

text \<open>
  The loop of \<^verbatim>\<open>Clear\<close>, \<^verbatim>\<open>for i := uint8(0); i <= d.Columns*d.Rows; i++\<close>. The product
  and the counter are \<^verbatim>\<open>uint8\<close>: when the product is 255 the condition never fails, and
  the loop ends only with an error. \<open>None\<close> is a loop that does not end.
\<close>

partial_function (option) Clear_loop ::
  "host \<Rightarrow> image \<Rightarrow> byte \<Rightarrow> DeviceAjazz \<Rightarrow> (DeviceAjazz \<times> outcome) option" where
  "Clear_loop h img i d =
     (if i \<le> Columns d * Rows d then
        (case SetImage h i img d of
           (d', Success) \<Rightarrow> Clear_loop h img (i + 1) d'
         | (d', r) \<Rightarrow> Some (d', r))
      else Some (d, Success))"

declare Clear_loop.simps [code]

definition Clear :: "host \<Rightarrow> DeviceAjazz \<Rightarrow> (DeviceAjazz \<times> outcome) option" where
  "Clear h d = Clear_loop h (black_image (Pixels d)) 0 d"

section \<open>Sleep, Wake and Brightness\<close>

text \<open>
  \<^verbatim>\<open>SetBrightness\<close> stores the clamped value in \<^verbatim>\<open>d.brightness\<close> before it tests
  \<^verbatim>\<open>d.asleep\<close>. In the deferred branch it takes the write lock of \<^verbatim>\<open>d.sleepMutex\<close>, which
  is not reentrant.
\<close>

definition SetBrightness :: "host \<Rightarrow> byte \<Rightarrow> DeviceAjazz \<Rightarrow> DeviceAjazz \<times> outcome" where
  "SetBrightness h percent d =
     (let percent = (if percent > 100 then 100 else percent);
          d = d\<lparr>brightness := percent\<rparr>
      in if asleep d \<and> percent > 0 then
           (if sleepMutex d then (d, Abort Deadlock)
            else (d\<lparr>preSleepBrightness := percent\<rparr>, Success))
         else cmdLightRetry h (brightness d) 3 d)"







section \<open>Vocabulary of the statements\<close>

text \<open>
  Three notions that the statements below use and the source does not name: the bytes
  of the payload that fall into window \<open>k\<close> of 512 bytes; the report that carries a
  chunk, which is the chunk followed by zeros up to 512 bytes, after a report-ID byte
  0x00 where the host is not Windows and the chunk starts with a zero byte; and the number
  of windows of a payload of \<open>n\<close> bytes, \<open>n / 512\<close> rounded up.
\<close>

definition window :: "byte list \<Rightarrow> nat \<Rightarrow> byte list" where
  "window data k = take 512 (drop (512 * k) data)"

definition framed :: "host \<Rightarrow> byte list \<Rightarrow> report" where
  "framed h ptr =
     (if \<not> windows h \<and> hd ptr = 0 then [0] else []) @ ptr @ replicate (512 - length ptr) 0"

definition chunk_count :: "nat \<Rightarrow> nat" where
  "chunk_count n = (n + 511) div 512"

text \<open>
  Writing a list of reports in order through the HID handle, stopping at the first write
  that fails: the reference against which the loops of the driver are compared.
\<close>

fun write_all :: "host \<Rightarrow> report list \<Rightarrow> DeviceAjazz \<Rightarrow> DeviceAjazz \<times> outcome" where
  "write_all h [] d = (d, Success)"
| "write_all h (f # fs) d =
     (case device_Write h f d of
        (d', Success) \<Rightarrow> write_all h fs d'
      | (d', r) \<Rightarrow> (d', r))"

text \<open>The reports of a payload: its windows in order, each framed.\<close>

definition chunk_frames :: "host \<Rightarrow> byte list \<Rightarrow> report list" where
  "chunk_frames h data = map (\<lambda>k. framed h (window data k)) [0..<chunk_count (length data)]"

text \<open>
  The reports of one attempt to upload an image: the batch header for the mapped target,
  then the reports of the payload. And the clear-slot frame for the same index.
\<close>

definition attempt_frames :: "host \<Rightarrow> byte \<Rightarrow> byte list \<Rightarrow> DeviceAjazz \<Rightarrow> report list" where
  "attempt_frames h index data d =
     batch_frame (elgato_to_ajazz index (Columns d)) (length data) # chunk_frames h data"

definition repair_frame :: "byte \<Rightarrow> DeviceAjazz \<Rightarrow> report" where
  "repair_frame index d = clear_frame (elgato_to_ajazz index (Columns d))"

text \<open>
  An operation with a counter of its runs beside the state: what a retried operation is
  run as when the number of its runs is to be read off the result.
\<close>

definition counted :: "('s \<Rightarrow> 's \<times> outcome) \<Rightarrow> 's \<times> nat \<Rightarrow> ('s \<times> nat) \<times> outcome" where
  "counted f = (\<lambda>(s, n). case f s of (s', r) \<Rightarrow> ((s', Suc n), r))"

text \<open>
  The loop of \<^verbatim>\<open>Fade\<close> leaves in iteration \<open>k\<close> when its condition fails there. A fade
  ends when its step is infinite or some iteration leaves the loop. Whether the ramp that
  \<^verbatim>\<open>float64\<close> arithmetic computes ends is not decided by the sources: it rests on that
  arithmetic and on the constant \<^verbatim>\<open>fadeDelay\<close>.
\<close>

definition fade_stops :: "host \<Rightarrow> byte \<Rightarrow> byte \<Rightarrow> int \<Rightarrow> nat \<Rightarrow> bool" where
  "fade_stops h start end' duration k =
     (case fade_current h start end' duration k of
        (c8, u8) \<Rightarrow> \<not> ((start < end' \<and> c8 < sint end') \<or> (start > end' \<and> c8 > sint end')))"

definition fade_ends :: "host \<Rightarrow> byte \<Rightarrow> byte \<Rightarrow> int \<Rightarrow> bool" where
  "fade_ends h start end' duration \<longleftrightarrow>
     fade_inf h start end' duration \<or> (\<exists>k. fade_stops h start end' duration k)"

text \<open>
  The ramp in exact arithmetic, for a fade of \<open>ticks\<close> steps: in iteration \<open>k\<close> the
  level is \<open>start + k * (end - start) / ticks\<close>, rounded down.
\<close>

definition ideal_ramp :: "int \<Rightarrow> byte \<Rightarrow> byte \<Rightarrow> int \<Rightarrow> nat \<Rightarrow> int \<times> byte" where
  "ideal_ramp ticks start end' duration k =
     (let c = uint start + (int k * (uint end' - uint start)) div ticks in (c, word_of_int c))"

section \<open>A sample session\<close>

text \<open>
  A host that is not Windows, on which no write fails and whose brightness ramp moves in
  steps of 10; and a panel of 6 columns and 3 rows with images of 2 by 2 pixels, whose
  codec sends the pixels as they are.
\<close>

definition example_host :: host where
  "example_host =
     \<lparr>windows = False, write_error = (\<lambda>k. False), fade_inf = (\<lambda>s e t. False),
      fade_current = (\<lambda>s e t k.
         let c = (if s < e then uint s + 10 * int k else uint s - 10 * int k)
         in (c, word_of_int c))\<rparr>"

definition example_deck :: DeviceAjazz where
  "example_deck =
     \<lparr>Columns = 6, Rows = 3, Keys = 18, Pixels = 2, flipImage = (\<lambda>i. i),
      toImageFormat = (\<lambda>i. Inr (Pix i)), asleep = False, sleepMutex = False,
      fadeDuration = 250000000, brightness = 40, preSleepBrightness = 0, written = []\<rparr>"

text \<open>The same host, except that the second write of the session fails.\<close>

definition flaky_host :: host where
  "flaky_host = example_host\<lparr>write_error := (\<lambda>k. k = 1)\<rparr>"

text \<open>The sample panel asleep, dark, with the brightness 40 to come back to.\<close>

definition asleep_deck :: DeviceAjazz where
  "asleep_deck = example_deck\<lparr>asleep := True, brightness := 0, preSleepBrightness := 40\<rparr>"

section \<open>Properties of the Key Index Mapper\<close>

lemma byte_le_17_cases:
  fixes index :: byte
  assumes "index \<le> 17"
  shows "index \<in> {0, 1, 2, 3, 4, 5, 6, 7, 8, 9, 10, 11, 12, 13, 14, 15, 16, 17}"
proof -
  have "unat index \<le> 17"
    using assms by (simp add: word_le_nat_alt)
  then have "unat index \<in> {0, 1, 2, 3, 4, 5, 6, 7, 8, 9, 10, 11, 12, 13, 14, 15, 16, 17}"
    by (simp add: numeral_eq_Suc le_Suc_eq)
  then have "word_of_nat (unat index) \<in>
      (word_of_nat ` {0, 1, 2, 3, 4, 5, 6, 7, 8, 9, 10, 11, 12, 13, 14, 15, 16, 17} :: byte set)"
    by (rule imageI)
  then show ?thesis by simp
qed

lemma roundtrip_upto_17:
  "index \<le> 17 \<Longrightarrow> ajazz_to_elgato (elgato_to_ajazz index c) c' = Inr index"
  by (drule byte_le_17_cases)
    (auto simp: ajazz_to_elgato_def elgato_to_ajazz_def elgato_table_def ajazz_table_def)

text \<open>
  C4, as the code has it. \<^verbatim>\<open>elgato_to_ajazz\<close> takes a 0-based index and returns a 1-based
  one, \<^verbatim>\<open>ajazz_to_elgato\<close> the reverse. The round trip
  \<open>ajazz_to_elgato (elgato_to_ajazz index)\<close> gives back every index from 0 to 17;
  \<^verbatim>\<open>elgato_to_ajazz\<close> returns every index above 17 unchanged, and \<^verbatim>\<open>ajazz_to_elgato\<close>
  every index above 18.
\<close>

theorem mapper_roundtrip_and_passthrough:
  "(index \<le> 17 \<longrightarrow> ajazz_to_elgato (elgato_to_ajazz index columns) columns = Inr index) \<and>
   (index > 17 \<longrightarrow> elgato_to_ajazz index columns = index) \<and>
   (index > 18 \<longrightarrow> ajazz_to_elgato index columns = Inr index)"
  by (simp add: roundtrip_upto_17) (simp add: ajazz_to_elgato_def elgato_to_ajazz_def)

theorem mapper_roundtrip_and_passthrough_witness:
  "ajazz_to_elgato (elgato_to_ajazz 5 6) 6 = Inr 5 \<and> elgato_to_ajazz 200 6 = 200 \<and>
   ajazz_to_elgato 200 6 = Inr 200"
  using mapper_roundtrip_and_passthrough [of 5 6] mapper_roundtrip_and_passthrough [of 200 6]
  by simp

text \<open>
  C4 as the claim words it fails at 18, the last index of its range \<open>[1,18]\<close> and the
  first ajazz index above 17: \<^verbatim>\<open>elgato_to_ajazz\<close> passes 18 through, and
  \<^verbatim>\<open>ajazz_to_elgato\<close> reads entry 17 of its table, which is 17.
\<close>

theorem roundtrip_18_counterexample:
  "ajazz_to_elgato (elgato_to_ajazz 18 6) 6 = Inr 17 \<and>
   ajazz_to_elgato (elgato_to_ajazz 18 6) 6 \<noteq> Inr 18 \<and>
   ajazz_to_elgato 18 6 \<noteq> Inr 18"
  by (simp add: ajazz_to_elgato_def elgato_to_ajazz_def ajazz_table_def)

text \<open>For the inputs 1 to 18 the read at \<^verbatim>\<open>index-1\<close> is in range.\<close>

lemma ajazz_to_elgato_in_table:
  assumes "1 \<le> index" and "index \<le> 18"
  shows "ajazz_to_elgato index columns = Inr (ajazz_table ! (unat index - 1))"
proof -
  have "unat (index - 1) = unat index - 1"
    using assms(1) by (simp add: unat_sub)
  moreover have "unat index \<le> 18" "1 \<le> unat index"
    using assms by (simp_all add: word_le_nat_alt)
  moreover have "\<not> index > 18"
    using assms(2) by simp
  ultimately show ?thesis
    by (simp add: ajazz_to_elgato_def Let_def ajazz_table_def)
qed

text \<open>
  C10 at the input 0, which \<^verbatim>\<open>ReadKeys\<close> hands to \<^verbatim>\<open>translateKeyIndex\<close> whenever
  byte 9 of a report is zero: \<^verbatim>\<open>ajazz_to_elgato\<close> is not total, since the guard \<^verbatim>\<open>index > 18\<close> lets 0 through, \<^verbatim>\<open>index-1\<close> wraps to 255 in \<^verbatim>\<open>uint8\<close>, and
  the read of the 18 entries at 255 panics.
\<close>

theorem ajazz_to_elgato_zero_panics:
  "ajazz_to_elgato 0 columns = Inl (IndexOutOfRange 255 18)"
  by (simp add: ajazz_to_elgato_def ajazz_table_def Let_def unsigned_minus_1_eq_mask
      mask_eq_exp_minus_1)

section \<open>Properties of the transport\<close>

lemma plain_frame_eq:
  "plain_frame data = take 512 data @ replicate (512 - length data) 0"
  by (simp add: plain_frame_def copy_at_def copy_go_def zero_def Let_def)

lemma report_id_frame_eq:
  "report_id_frame data = 0 # take 512 data @ replicate (512 - length data) 0"
  by (simp add: report_id_frame_def copy_at_def copy_go_def zero_def Let_def
      take_Suc_conv_app_nth)

lemma cmdWrite_framed:
  assumes "ptr \<noteq> []" and "length ptr \<le> 512"
  shows "cmdWrite h ptr d = device_Write h (framed h ptr) d"
proof (cases ptr)
  case Nil
  with assms show ?thesis by simp
next
  case (Cons b bs)
  with assms show ?thesis
    by (simp add: cmdWrite_def framed_def plain_frame_eq report_id_frame_eq)
qed

lemma length_framed:
  "length ptr \<le> 512 \<Longrightarrow>
     length (framed h ptr) = (if \<not> windows h \<and> hd ptr = 0 then 513 else 512)"
  by (simp add: framed_def)

text \<open>
  C1, as the code has it: the framing of a chunk of 1 to 512 bytes is decided by the
  platform together with the first byte of the chunk. On Windows, and elsewhere for a
  chunk whose first byte is not zero, the chunk is sent as it is, zero-padded to 512
  bytes; off Windows a chunk whose first byte is zero is sent after a report-ID byte
  0x00, zero-padded to 513 bytes.
\<close>

theorem cmdWrite_framing:
  assumes "data \<noteq> []" and "length data \<le> 512"
  shows "cmdWrite h data d =
           device_Write h
             (if \<not> windows h \<and> hd data = 0 then 0 # data @ replicate (512 - length data) 0
              else data @ replicate (512 - length data) 0) d \<and>
         length (0 # data @ replicate (512 - length data) 0) = 513 \<and>
         length (data @ replicate (512 - length data) 0) = 512"
  using assms by (simp add: cmdWrite_framed framed_def)

theorem cmdWrite_framing_witness:
  "cmdWrite example_host [0, 7] example_deck =
     device_Write example_host (0 # [0, 7] @ replicate 510 0) example_deck \<and>
   cmdWrite (example_host\<lparr>windows := True\<rparr>) [0, 7] example_deck =
     device_Write (example_host\<lparr>windows := True\<rparr>) ([0, 7] @ replicate 510 0) example_deck"
  using cmdWrite_framing [of "[0, 7]" example_host example_deck]
    cmdWrite_framing [of "[0, 7]" "example_host\<lparr>windows := True\<rparr>" example_deck]
  by (simp add: example_host_def)

text \<open>
  C1 as the claim words it fails off Windows: there the chunk \<open>[0x43]\<close> is sent
  without a report-ID byte in 512 bytes, and the chunk \<open>[0x00, 0x43]\<close> with one in
  513, so the framing depends on the contents.
\<close>

theorem cmdWrite_framing_counterexample:
  "\<not> windows example_host \<and>
   written (fst (cmdWrite example_host [0x43] example_deck)) = [0x43 # replicate 511 0] \<and>
   length (hd (written (fst (cmdWrite example_host [0x43] example_deck)))) = 512 \<and>
   written (fst (cmdWrite example_host [0, 0x43] example_deck)) =
     [0 # 0 # 0x43 # replicate 510 0] \<and>
   length (hd (written (fst (cmdWrite example_host [0, 0x43] example_deck)))) = 513"
  by (simp add: cmdWrite_def example_host_def example_deck_def device_Write_def
      plain_frame_eq report_id_frame_eq)

declare send_chunks.simps [simp del]

lemma window_nonempty: "512 * k < length data \<Longrightarrow> window data k \<noteq> []"
  by (simp add: window_def)

lemma length_window: "length (window data k) \<le> 512"
  by (simp add: window_def)

lemma length_window_full: "512 * k + 512 \<le> length data \<Longrightarrow> length (window data k) = 512"
  by (simp add: window_def)

lemma chunk_count_less: "k < chunk_count n \<longleftrightarrow> 512 * k < n"
  by (auto simp: chunk_count_def)

lemma send_chunks_step:
  assumes "512 * k < length data"
  shows "send_chunks h data (512 * k) d =
     (case device_Write h (framed h (window data k)) d of
        (d', Success) \<Rightarrow> send_chunks h data (512 * k + 512) d'
      | (d', r) \<Rightarrow> (d', r))"
proof -
  have ptr: "(if 512 * k + 512 < length data then take 512 (drop (512 * k) data)
              else drop (512 * k) data) = window data k"
    using assms by (simp add: window_def)
  show ?thesis
    using assms
    by (subst send_chunks.simps)
      (simp add: ptr cmdWrite_framed window_nonempty length_window)
qed

lemma send_chunks_done:
  "\<not> 512 * k < length data \<Longrightarrow> send_chunks h data (512 * k) d = (d, Success)"
  by (subst send_chunks.simps) simp

lemma send_chunks_from:
  "send_chunks h data (512 * k) d =
     write_all h (map (\<lambda>j. framed h (window data j)) [k..<chunk_count (length data)]) d"
proof (induction "chunk_count (length data) - k" arbitrary: k d)
  case 0
  then have "\<not> 512 * k < length data"
    by (simp add: chunk_count_less [symmetric])
  with 0 show ?case
    by (simp add: send_chunks_done)
next
  case (Suc n)
  then have less: "k < chunk_count (length data)"
    by simp
  then have lt: "512 * k < length data"
    by (simp add: chunk_count_less)
  have next_k: "512 * k + 512 = 512 * Suc k"
    by simp
  have rest: "send_chunks h data (512 * k + 512) d' =
      write_all h (map (\<lambda>j. framed h (window data j)) [Suc k..<chunk_count (length data)]) d'"
    for d'
    unfolding next_k using Suc.hyps by (intro Suc.hyps(1)) simp
  show ?case
    using less by (simp add: send_chunks_step [OF lt] rest upt_conv_Cons split: prod.split outcome.split)
qed

lemma send_chunks_write_all:
  "send_chunks h data 0 d = write_all h (chunk_frames h data) d"
  using send_chunks_from [of h data 0 d] by (simp add: chunk_frames_def)

lemma write_all_ok:
  "\<forall>k. \<not> write_error h k \<Longrightarrow> write_all h fs d = (d\<lparr>written := written d @ fs\<rparr>, Success)"
  by (induction fs arbitrary: d) (simp_all add: device_Write_def)

lemma length_chunk_frames: "length (chunk_frames h data) = chunk_count (length data)"
  by (simp add: chunk_frames_def)

lemma nth_chunk_frames:
  "k < chunk_count (length data) \<Longrightarrow> chunk_frames h data ! k = framed h (window data k)"
  by (simp add: chunk_frames_def)

lemma length_framed_cases: "length ptr \<le> 512 \<Longrightarrow> length (framed h ptr) = 512 \<or> length (framed h ptr) = 513"
  by (simp add: framed_def)

lemma chunk_frames_lengths:
  "r \<in> set (chunk_frames h data) \<Longrightarrow> length r = 512 \<or> length r = 513"
  using length_framed_cases [OF length_window] by (auto simp: chunk_frames_def)

lemma inner_window_full:
  assumes "Suc k < chunk_count (length data)"
  shows "length (window data k) = 512"
proof -
  from assms have "512 * Suc k < length data"
    by (simp only: chunk_count_less)
  then show ?thesis
    by (simp add: window_def)
qed

lemma last_window:
  assumes "data \<noteq> []"
  shows "window data (chunk_count (length data) - 1) =
           drop (512 * (chunk_count (length data) - 1)) data"
proof -
  have "length data \<le> 512 * chunk_count (length data)"
    by (simp add: chunk_count_def)
  moreover have "0 < chunk_count (length data)"
    using assms chunk_count_less [of 0 "length data"] by simp
  ultimately have "length data - 512 * (chunk_count (length data) - 1) \<le> 512"
    by (simp add: algebra_simps)
  then show ?thesis
    by (simp add: window_def)
qed

text \<open>
  C2. When no write fails, the payload loop over a non-empty payload of \<open>N\<close> bytes
  performs exactly \<open>N / 512\<close> rounded up writes. Every report has 512 bytes, or 513 with
  the report-ID byte; report \<open>k\<close> carries window \<open>k\<close> of the payload followed by zeros;
  every window but the last has 512 bytes, and the last holds the rest of the payload.
\<close>

theorem send_chunks_reports:
  assumes "data \<noteq> []" and "\<forall>k. \<not> write_error h k"
  shows "\<exists>reports.
           send_chunks h data 0 d = (d\<lparr>written := written d @ reports\<rparr>, Success) \<and>
           length reports = (length data + 511) div 512 \<and>
           (\<forall>r \<in> set reports. length r = 512 \<or> length r = 513) \<and>
           (\<forall>k < length reports.
              reports ! k =
                (if \<not> windows h \<and> hd (window data k) = 0 then [0] else []) @
                window data k @ replicate (512 - length (window data k)) 0) \<and>
           (\<forall>k. Suc k < length reports \<longrightarrow> length (window data k) = 512) \<and>
           window data (length reports - 1) = drop (512 * (length reports - 1)) data"
proof (intro exI conjI)
  show "send_chunks h data 0 d = (d\<lparr>written := written d @ chunk_frames h data\<rparr>, Success)"
    using assms(2) by (simp add: send_chunks_write_all write_all_ok)
  show "length (chunk_frames h data) = (length data + 511) div 512"
    by (simp add: length_chunk_frames chunk_count_def)
  show "\<forall>r \<in> set (chunk_frames h data). length r = 512 \<or> length r = 513"
    using chunk_frames_lengths by blast
  show "\<forall>k < length (chunk_frames h data).
          chunk_frames h data ! k =
            (if \<not> windows h \<and> hd (window data k) = 0 then [0] else []) @
            window data k @ replicate (512 - length (window data k)) 0"
    by (simp add: length_chunk_frames nth_chunk_frames framed_def)
  show "\<forall>k. Suc k < length (chunk_frames h data) \<longrightarrow> length (window data k) = 512"
    by (simp add: length_chunk_frames inner_window_full)
  show "window data (length (chunk_frames h data) - 1) =
          drop (512 * (length (chunk_frames h data) - 1)) data"
    using assms(1) last_window [of data] by (simp add: length_chunk_frames)
qed

theorem send_chunks_reports_witness:
  "\<exists>reports.
     send_chunks example_host (replicate 600 7) 0 example_deck =
       (example_deck\<lparr>written := written example_deck @ reports\<rparr>, Success) \<and>
     length reports = 2 \<and>
     length (window (replicate 600 7) 0) = 512 \<and>
     window (replicate 600 7) 1 = replicate 88 7"
proof -
  have "(replicate 600 7 :: byte list) \<noteq> []"
    by simp
  moreover have "\<forall>k. \<not> write_error example_host k"
    by (simp add: example_host_def)
  ultimately obtain reports where
    "send_chunks example_host (replicate 600 7) 0 example_deck =
       (example_deck\<lparr>written := written example_deck @ reports\<rparr>, Success)"
    "length reports = (length (replicate 600 7 :: byte list) + 511) div 512"
    using send_chunks_reports [of "replicate 600 7" example_host example_deck] by blast
  then show ?thesis
    by (intro exI [of _ reports]) (simp add: window_def)
qed

section \<open>Properties of the frames\<close>

lemma copy_go_header:
  "length hdr \<le> n \<Longrightarrow> copy_go (replicate n z) hdr = hdr @ replicate (n - length hdr) z"
  by (simp add: copy_go_def)

lemma cmd_zeroed: "copy_go cmd zero = replicate 512 0"
  by (simp add: copy_go_def cmd_def zero_def)

lemma batch_frame_updates:
  "batch_frame target sz =
     (batch_header @ replicate 496 0)
       [12 := target,
        8 := ucast (drop_bit 24 (word_of_nat sz :: 32 word)),
        9 := ucast (drop_bit 16 (word_of_nat sz :: 32 word)),
        10 := ucast (drop_bit 8 (word_of_nat sz :: 32 word)),
        11 := ucast (word_of_nat sz :: 32 word)]"
  by (simp add: batch_frame_def cmd_zeroed copy_go_header batch_header_def PutUint32_def)

lemma length_batch_frame: "length (batch_frame target sz) = 512"
  by (simp add: batch_frame_updates batch_header_def)

lemma batch_frame_target: "batch_frame target sz ! 12 = target"
  by (simp add: batch_frame_updates batch_header_def)

lemma batch_frame_tag:
  "take 8 (batch_frame target sz) = [0x43, 0x52, 0x54, 0x00, 0x00, 0x42, 0x41, 0x54]"
  by (simp add: batch_frame_updates batch_header_def take_update_cancel)

lemma hd_batch_frame: "hd (batch_frame target sz) = 0x43"
  using arg_cong [OF batch_frame_tag, of hd target sz] by (simp add: hd_take)

lemma light_frame_updates: "light_frame b = (light_header @ replicate 502 0)[10 := b]"
  by (simp add: light_frame_def cmd_zeroed copy_go_header light_header_def)

lemma length_light_frame: "length (light_frame b) = 512"
  by (simp add: light_frame_updates light_header_def)

lemma light_frame_level: "light_frame b ! 10 = b"
  by (simp add: light_frame_updates light_header_def)

lemma light_frame_tag:
  "take 8 (light_frame b) = [0x43, 0x52, 0x54, 0x00, 0x00, 0x4c, 0x49, 0x47]"
  by (simp add: light_frame_updates light_header_def take_update_cancel)

lemma hd_light_frame: "hd (light_frame b) = 0x43"
  using arg_cong [OF light_frame_tag, of hd b] by (simp add: hd_take)

lemma clear_frame_updates: "clear_frame target = (clear_header @ replicate 496 0)[11 := target]"
  by (simp add: clear_frame_def cmd_zeroed copy_go_header clear_header_def)

lemma length_clear_frame: "length (clear_frame target) = 512"
  by (simp add: clear_frame_updates clear_header_def)


lemma clear_frame_tag:
  "take 8 (clear_frame target) = [0x43, 0x52, 0x54, 0x00, 0x00, 0x43, 0x4c, 0x45]"
  by (simp add: clear_frame_updates clear_header_def take_update_cancel)

lemma hd_clear_frame: "hd (clear_frame target) = 0x43"
  using arg_cong [OF clear_frame_tag, of hd target] by (simp add: hd_take)

section \<open>Properties of the image upload\<close>

lemma cmdWrite_command:
  assumes "length c = 512" and "hd c \<noteq> 0"
  shows "cmdWrite h c d = device_Write h c d"
proof -
  from assms(1) have "c \<noteq> []" by auto
  with assms show ?thesis
    by (simp add: cmdWrite_framed framed_def)
qed

lemma retry_from_success:
  "f s = (s', Success) \<Longrightarrow> retry_from f onRetry n left s = (s', Success)"
  by (cases left) simp_all

lemma retry_Do_success:
  "f s = (s', Success) \<Longrightarrow> retry_Do f onRetry attempts s = (s', Success)"
  by (simp add: retry_Do_def retry_from_success)

lemma cmdBatchRetry_func_write_all:
  "cmdBatchRetry_func h index data d =
     write_all h (batch_frame (elgato_to_ajazz index (Columns d)) (length data) #
       chunk_frames h data) d"
  by (simp add: cmdBatchRetry_func_def cmdWrite_command length_batch_frame hd_batch_frame
      send_chunks_write_all split: prod.split outcome.split)

lemma SetImage_ok:
  assumes "Dx img = int (Pixels d)" and "Dy img = int (Pixels d)"
    and "toImageFormat d (flipImage d img) = Inr imageBytes"
    and "\<forall>k. \<not> write_error h k"
  shows "SetImage h index img d =
           (d\<lparr>written := written d @
                batch_frame (elgato_to_ajazz index (Columns d)) (length imageBytes) #
                chunk_frames h imageBytes\<rparr>, Success)"
proof -
  have "cmdBatchRetry h index imageBytes 3 d =
          (d\<lparr>written := written d @
               batch_frame (elgato_to_ajazz index (Columns d)) (length imageBytes) #
               chunk_frames h imageBytes\<rparr>, Success)"
    unfolding cmdBatchRetry_def
    by (rule retry_Do_success) (simp add: cmdBatchRetry_func_write_all write_all_ok assms(4) device_Write_def)
  with assms(1-3) show ?thesis
    by (simp add: SetImage_def)
qed

lemma length_black_image: "length (Pix (black_image p)) = 4 * (p * p)"
  by (simp add: black_image_def length_concat sum_list_replicate)

section \<open>Properties of the retried upload\<close>

lemma write_all_shape:
  "write_all h fs d = (d', r) \<Longrightarrow>
     \<exists>m. m \<le> length fs \<and> d' = d\<lparr>written := written d @ take m fs\<rparr> \<and>
       (r = Success \<and> m = length fs \<or>
        0 < m \<and> r = Failure (TransportError (length (written d) + m - 1)) \<and>
          write_error h (length (written d) + m - 1))"
proof (induction fs arbitrary: d)
  case Nil
  then show ?case by simp
next
  case (Cons f fs)
  show ?case
  proof (cases "write_error h (length (written d))")
    case True
    with Cons.prems have "d' = d\<lparr>written := written d @ take 1 (f # fs)\<rparr>"
      and "r = Failure (TransportError (length (written d) + 1 - 1))"
      by (simp_all add: device_Write_def)
    with True show ?thesis
      by (intro exI [of _ 1]) simp
  next
    case False
    with Cons.prems have "write_all h fs (d\<lparr>written := written d @ [f]\<rparr>) = (d', r)"
      by (simp add: device_Write_def)
    from Cons.IH [OF this] obtain m where m: "m \<le> length fs"
      "d' = d\<lparr>written := written d @ f # take m fs\<rparr>"
      "r = Success \<and> m = length fs \<or>
        0 < m \<and> r = Failure (TransportError (length (written d) + m)) \<and>
          write_error h (length (written d) + m)"
      by auto
    then show ?thesis
      by (intro exI [of _ "Suc m"]) auto
  qed
qed

lemma WriteRetry_shape:
  assumes "length c = 512" and "hd c \<noteq> 0"
  shows "\<exists>k r. 1 \<le> k \<and> k \<le> 3 \<and>
           WriteRetry h c d = (d\<lparr>written := written d @ replicate k c\<rparr>, r) \<and>
           (r = Success \<and> \<not> write_error h (length (written d) + k - 1) \<or>
            k = 3 \<and> r = Failure (TransportError (length (written d) + 2)) \<and>
              write_error h (length (written d) + 2))"
proof -
  have unroll: "WriteRetry h c d =
      (case device_Write h c d of
         (d1, Failure e1) \<Rightarrow>
           (case device_Write h c d1 of
              (d2, Failure e2) \<Rightarrow> device_Write h c d2
            | (d2, r) \<Rightarrow> (d2, r))
       | (d1, r) \<Rightarrow> (d1, r))"
    by (simp add: WriteRetry_def retry_Do_def numeral_2_eq_2 no_hook_def
        cmdWrite_command [OF assms] split: prod.split outcome.split)
  show ?thesis
  proof (cases "write_error h (length (written d))")
    case False
    then show ?thesis
      by (intro exI [of _ 1] exI [of _ Success]) (simp add: unroll device_Write_def)
  next
    case e1: True
    show ?thesis
    proof (cases "write_error h (length (written d) + 1)")
      case False
      with e1 show ?thesis
        by (intro exI [of _ 2] exI [of _ Success])
          (simp add: unroll device_Write_def numeral_2_eq_2)
    next
      case e2: True
      show ?thesis
      proof (cases "write_error h (length (written d) + 2)")
        case False
        with e1 e2 show ?thesis
          by (intro exI [of _ 3] exI [of _ Success])
            (simp add: unroll device_Write_def numeral_3_eq_3)
      next
        case True
        with e1 e2 show ?thesis
          by (intro exI [of _ 3] exI [of _ "Failure (TransportError (length (written d) + 2))"])
            (simp add: unroll device_Write_def numeral_3_eq_3)
      qed
    qed
  qed
qed

lemma cmdClear_target:
  "(if target \<noteq> 0xff then elgato_to_ajazz target columns else target) =
     elgato_to_ajazz target columns"
  by (simp add: elgato_to_ajazz_def)

lemma cmdClear_shape:
  "\<exists>k r. 1 \<le> k \<and> k \<le> 3 \<and>
      cmdClear h index d =
        (d\<lparr>written := written d @ replicate k (clear_frame (elgato_to_ajazz index (Columns d)))\<rparr>, r)"
  using WriteRetry_shape [OF length_clear_frame, of "elgato_to_ajazz index (Columns d)" h d]
  by (simp add: cmdClear_def cmdClear_target hd_clear_frame) blast

lemma cmdBatchRetry_func_shape:
  assumes "cmdBatchRetry_func h index data d0 = (d1, r)"
  shows "\<exists>m. 0 < m \<and> m \<le> length (attempt_frames h index data d0) \<and>
           d1 = d0\<lparr>written := written d0 @ take m (attempt_frames h index data d0)\<rparr> \<and>
           (r = Success \<and> m = length (attempt_frames h index data d0) \<or>
            r = Failure (TransportError (length (written d0) + m - 1)) \<and>
              write_error h (length (written d0) + m - 1))"
proof -
  from assms have "write_all h (attempt_frames h index data d0) d0 = (d1, r)"
    by (simp add: cmdBatchRetry_func_write_all attempt_frames_def)
  from write_all_shape [OF this] obtain m where
    "m \<le> length (attempt_frames h index data d0)"
    "d1 = d0\<lparr>written := written d0 @ take m (attempt_frames h index data d0)\<rparr>"
    "r = Success \<and> m = length (attempt_frames h index data d0) \<or>
       0 < m \<and> r = Failure (TransportError (length (written d0) + m - 1)) \<and>
         write_error h (length (written d0) + m - 1)"
    by blast
  moreover have "0 < length (attempt_frames h index data d0)"
    by (simp add: attempt_frames_def)
  ultimately show ?thesis
    by (intro exI [of _ m]) auto
qed

lemma cmdBatchRetry_onRetry_shape:
  "\<exists>k. 1 \<le> k \<and> k \<le> 3 \<and>
      cmdBatchRetry_onRetry h index n e d0 =
        d0\<lparr>written := written d0 @ replicate k (repair_frame index d0)\<rparr>"
  using cmdClear_shape [of h index d0]
  by (auto simp: cmdBatchRetry_onRetry_def repair_frame_def)

lemma cmdBatchRetry_unroll:
  "cmdBatchRetry h index data 3 d =
     (case cmdBatchRetry_func h index data d of
        (d1, Failure e1) \<Rightarrow>
          (case cmdBatchRetry_func h index data (cmdBatchRetry_onRetry h index 0 e1 d1) of
             (d2, Failure e2) \<Rightarrow>
               cmdBatchRetry_func h index data (cmdBatchRetry_onRetry h index 1 e2 d2)
           | (d2, r) \<Rightarrow> (d2, r))
      | (d1, r) \<Rightarrow> (d1, r))"
  by (simp add: cmdBatchRetry_def retry_Do_def numeral_2_eq_2 split: prod.split outcome.split)

lemma attempt_frames_written [simp]:
  "attempt_frames h index data (d\<lparr>written := w\<rparr>) = attempt_frames h index data d"
  by (simp add: attempt_frames_def)

lemma repair_frame_written [simp]:
  "repair_frame index (d\<lparr>written := w\<rparr>) = repair_frame index d"
  by (simp add: repair_frame_def)

lemma cmdBatchRetry_shapes:
  assumes "cmdBatchRetry h index data 3 d = (d', r)"
  shows
    "(r = Success \<and> written d' = written d @ attempt_frames h index data d) \<or>
     (\<exists>m1 k1.
        0 < m1 \<and> m1 \<le> length (attempt_frames h index data d) \<and>
        write_error h (length (written d) + m1 - 1) \<and> 1 \<le> k1 \<and> k1 \<le> 3 \<and>
        r = Success \<and>
        written d' = written d @ take m1 (attempt_frames h index data d) @
          replicate k1 (repair_frame index d) @ attempt_frames h index data d) \<or>
     (\<exists>m1 k1 m2 k2 m3.
        0 < m1 \<and> m1 \<le> length (attempt_frames h index data d) \<and>
        write_error h (length (written d) + m1 - 1) \<and> 1 \<le> k1 \<and> k1 \<le> 3 \<and>
        0 < m2 \<and> m2 \<le> length (attempt_frames h index data d) \<and>
        write_error h (length (written d) + m1 + k1 + m2 - 1) \<and> 1 \<le> k2 \<and> k2 \<le> 3 \<and>
        0 < m3 \<and> m3 \<le> length (attempt_frames h index data d) \<and>
        written d' = written d @ take m1 (attempt_frames h index data d) @
          replicate k1 (repair_frame index d) @ take m2 (attempt_frames h index data d) @
          replicate k2 (repair_frame index d) @ take m3 (attempt_frames h index data d) \<and>
        (r = Success \<and> m3 = length (attempt_frames h index data d) \<or>
         r = Failure (TransportError (length (written d') - 1)) \<and>
           write_error h (length (written d') - 1)))"
proof -
  define A where "A = attempt_frames h index data d"
  define C where "C = repair_frame index d"
  obtain d1 r1 where first: "cmdBatchRetry_func h index data d = (d1, r1)"
    by (cases "cmdBatchRetry_func h index data d")
  from cmdBatchRetry_func_shape [OF first] obtain m1 where m1:
    "0 < m1" "m1 \<le> length A" "d1 = d\<lparr>written := written d @ take m1 A\<rparr>"
    "r1 = Success \<and> m1 = length A \<or>
     r1 = Failure (TransportError (length (written d) + m1 - 1)) \<and>
       write_error h (length (written d) + m1 - 1)"
    unfolding A_def by blast
  show ?thesis
  proof (cases r1)
    case Success
    with assms first m1 have "r = Success" "written d' = written d @ A"
      by (auto simp: cmdBatchRetry_unroll)
    then show ?thesis
      unfolding A_def by blast
  next
    case (Abort f)
    with m1(4) show ?thesis by simp
  next
    case (Failure e1)
    with m1(4) have err1: "write_error h (length (written d) + m1 - 1)"
      by simp
    obtain k1 where k1: "1 \<le> k1" "k1 \<le> 3"
      "cmdBatchRetry_onRetry h index 0 e1 d1 =
         d\<lparr>written := written d @ take m1 A @ replicate k1 C\<rparr>"
      using cmdBatchRetry_onRetry_shape [of h index 0 e1 d1] m1(3)
      by (auto simp: C_def)
    define c1 where "c1 = d\<lparr>written := written d @ take m1 A @ replicate k1 C\<rparr>"
    obtain d2 r2 where second: "cmdBatchRetry_func h index data c1 = (d2, r2)"
      by (cases "cmdBatchRetry_func h index data c1")
    from cmdBatchRetry_func_shape [OF second] obtain m2 where m2:
      "0 < m2" "m2 \<le> length A"
      "d2 = d\<lparr>written := written d @ take m1 A @ replicate k1 C @ take m2 A\<rparr>"
      "r2 = Success \<and> m2 = length A \<or>
       r2 = Failure (TransportError (length (written c1) + m2 - 1)) \<and>
         write_error h (length (written c1) + m2 - 1)"
      unfolding A_def c1_def by auto
    have len_c1: "length (written c1) = length (written d) + m1 + k1"
      using m1(2) by (simp add: c1_def)
    show ?thesis
    proof (cases r2)
      case Success
      with assms first Failure k1(3) second m2 have
        "r = Success" "written d' = written d @ take m1 A @ replicate k1 C @ A"
        by (auto simp: cmdBatchRetry_unroll c1_def)
      with m1(1,2) err1 k1(1,2) have
        "\<exists>m1 k1. 0 < m1 \<and> m1 \<le> length A \<and> write_error h (length (written d) + m1 - 1) \<and>
           1 \<le> k1 \<and> k1 \<le> 3 \<and> r = Success \<and>
           written d' = written d @ take m1 A @ replicate k1 C @ A"
        by blast
      then show ?thesis
        unfolding A_def C_def by blast
    next
      case (Abort f)
      with m2(4) show ?thesis by simp
    next
      case fail2: (Failure e2)
      with m2(4) have err2: "write_error h (length (written d) + m1 + k1 + m2 - 1)"
        by (simp add: len_c1)
      obtain k2 where k2: "1 \<le> k2" "k2 \<le> 3"
        "cmdBatchRetry_onRetry h index 1 e2 d2 =
           d\<lparr>written := written d @ take m1 A @ replicate k1 C @ take m2 A @ replicate k2 C\<rparr>"
        using cmdBatchRetry_onRetry_shape [of h index 1 e2 d2] m2(3)
        by (auto simp: C_def)
      define c2 where
        "c2 = d\<lparr>written := written d @ take m1 A @ replicate k1 C @ take m2 A @ replicate k2 C\<rparr>"
      have third: "cmdBatchRetry_func h index data c2 = (d', r)"
        using assms first Failure k1(3) second fail2 k2(3)
        by (simp add: cmdBatchRetry_unroll c1_def c2_def)
      from cmdBatchRetry_func_shape [OF third] obtain m3 where m3:
        "0 < m3" "m3 \<le> length A"
        "d' = d\<lparr>written := written d @ take m1 A @ replicate k1 C @ take m2 A @
                 replicate k2 C @ take m3 A\<rparr>"
        "r = Success \<and> m3 = length A \<or>
         r = Failure (TransportError (length (written c2) + m3 - 1)) \<and>
           write_error h (length (written c2) + m3 - 1)"
        unfolding A_def c2_def by auto
      have "length (written d') = length (written c2) + m3"
        using m3(2,3) by (simp add: c2_def)
      with m3(4) have last:
        "r = Success \<and> m3 = length A \<or>
         r = Failure (TransportError (length (written d') - 1)) \<and>
           write_error h (length (written d') - 1)"
        by simp
      have "written d' = written d @ take m1 A @ replicate k1 C @ take m2 A @
              replicate k2 C @ take m3 A"
        using m3(3) by simp
      with m1(1,2) err1 k1(1,2) m2(1,2) err2 k2(1,2) m3(1,2) last have
        "\<exists>m1 k1 m2 k2 m3.
           0 < m1 \<and> m1 \<le> length A \<and> write_error h (length (written d) + m1 - 1) \<and>
           1 \<le> k1 \<and> k1 \<le> 3 \<and> 0 < m2 \<and> m2 \<le> length A \<and>
           write_error h (length (written d) + m1 + k1 + m2 - 1) \<and> 1 \<le> k2 \<and> k2 \<le> 3 \<and>
           0 < m3 \<and> m3 \<le> length A \<and>
           written d' = written d @ take m1 A @ replicate k1 C @ take m2 A @
             replicate k2 C @ take m3 A \<and>
           (r = Success \<and> m3 = length A \<or>
            r = Failure (TransportError (length (written d') - 1)) \<and>
              write_error h (length (written d') - 1))"
        by blast
      then show ?thesis
        unfolding A_def C_def by blast
    qed
  qed
qed



section \<open>Properties of a successful SetImage\<close>

lemma SetImage_success_upload:
  assumes "Dx img = int (Pixels d)" and "Dy img = int (Pixels d)"
    and "toImageFormat d (flipImage d img) = Inr imageBytes"
    and "SetImage h index img d = (d', Success)"
  shows "cmdBatchRetry h index imageBytes 3 d = (d', Success)"
  using assms by (auto simp: SetImage_def split: prod.splits outcome.splits)

lemma flaky_error: "write_error flaky_host k \<longleftrightarrow> k = 1"
  by (simp add: flaky_host_def)

lemma flaky_chunks:
  "chunk_frames flaky_host (Pix (black_image 2)) = [framed flaky_host (Pix (black_image 2))]"
proof -
  have "chunk_count (length (Pix (black_image 2))) = 1"
    by (simp add: length_black_image chunk_count_def)
  moreover have "window (Pix (black_image 2)) 0 = Pix (black_image 2)"
    by (simp add: window_def length_black_image)
  ultimately show ?thesis
    by (simp add: chunk_frames_def)
qed

lemma flaky_SetImage:
  "SetImage flaky_host 0 (black_image 2) example_deck =
     (example_deck\<lparr>written :=
        [batch_frame 13 16, framed flaky_host (Pix (black_image 2)), clear_frame 13,
         batch_frame 13 16, framed flaky_host (Pix (black_image 2))]\<rparr>, Success)"
proof -
  define A where "A = [batch_frame 13 16, framed flaky_host (Pix (black_image 2))]"
  have target: "elgato_to_ajazz 0 (Columns d) = 13" for d
    by (simp add: elgato_to_ajazz_def elgato_table_def)
  have func: "cmdBatchRetry_func flaky_host 0 (Pix (black_image 2)) d = write_all flaky_host A d"
    for d
    by (simp add: cmdBatchRetry_func_write_all target flaky_chunks length_black_image A_def)
  have first: "cmdBatchRetry_func flaky_host 0 (Pix (black_image 2)) example_deck =
      (example_deck\<lparr>written := A\<rparr>, Failure (TransportError 1))"
    by (simp add: func A_def device_Write_def flaky_error) (simp add: example_deck_def)
  have clear: "cmdClear flaky_host 0 (example_deck\<lparr>written := A\<rparr>) =
      (example_deck\<lparr>written := A @ [clear_frame 13]\<rparr>, Success)"
    unfolding cmdClear_def WriteRetry_def
    by (simp add: cmdClear_target target)
      (rule retry_Do_success,
        simp add: cmdWrite_command length_clear_frame hd_clear_frame device_Write_def
          flaky_error A_def)
  have second: "cmdBatchRetry_func flaky_host 0 (Pix (black_image 2))
        (example_deck\<lparr>written := A @ [clear_frame 13]\<rparr>) =
      (example_deck\<lparr>written := A @ [clear_frame 13] @ A\<rparr>, Success)"
    by (simp add: func device_Write_def flaky_error) (simp add: A_def device_Write_def flaky_error)
  have "cmdBatchRetry flaky_host 0 (Pix (black_image 2)) 3 example_deck =
      (example_deck\<lparr>written := A @ [clear_frame 13] @ A\<rparr>, Success)"
    by (simp add: cmdBatchRetry_unroll first cmdBatchRetry_onRetry_def clear second)
  then show ?thesis
    by (simp add: SetImage_def black_image_def A_def) (simp add: example_deck_def)
qed


text \<open>
  C3, as the code has it. \<^verbatim>\<open>SetImage\<close> hands its index to \<^verbatim>\<open>cmdBatchRetry\<close>, which maps
  the index itself and writes the batch header inside the function it retries. So a
  successful \<^verbatim>\<open>SetImage\<close> with an image of the panel's size ends its log with one batch
  header, whose byte 12 is \<open>elgato_to_ajazz index\<close>, followed by the payload chunks, as
  many as the length of the encoded bytes divided by 512, rounded up. Before them stand
  the attempts that failed, none, one or two: each starts with the same header, is cut
  short by a failing write and is followed by one to three clear-slot frames. When no
  write fails there is none, and the header is written exactly once.
\<close>

theorem SetImage_frames:
  assumes "Dx img = int (Pixels d)" and "Dy img = int (Pixels d)"
    and "toImageFormat d (flipImage d img) = Inr imageBytes"
    and "SetImage h index img d = (d', Success)"
  shows "\<exists>earlier header chunks.
           written d' = written d @ earlier @ header # chunks \<and>
           take 8 header = [0x43, 0x52, 0x54, 0x00, 0x00, 0x42, 0x41, 0x54] \<and>
           header ! 12 = elgato_to_ajazz index (Columns d) \<and>
           chunks = chunk_frames h imageBytes \<and>
           length chunks = (length imageBytes + 511) div 512 \<and>
           (earlier = [] \<or>
            (\<exists>m1 k1.
               0 < m1 \<and> m1 \<le> length (header # chunks) \<and>
               write_error h (length (written d) + m1 - 1) \<and> 1 \<le> k1 \<and> k1 \<le> 3 \<and>
               earlier = take m1 (header # chunks) @ replicate k1 (repair_frame index d)) \<or>
            (\<exists>m1 k1 m2 k2.
               0 < m1 \<and> m1 \<le> length (header # chunks) \<and>
               write_error h (length (written d) + m1 - 1) \<and> 1 \<le> k1 \<and> k1 \<le> 3 \<and>
               0 < m2 \<and> m2 \<le> length (header # chunks) \<and>
               write_error h (length (written d) + m1 + k1 + m2 - 1) \<and> 1 \<le> k2 \<and> k2 \<le> 3 \<and>
               earlier = take m1 (header # chunks) @ replicate k1 (repair_frame index d) @
                 take m2 (header # chunks) @ replicate k2 (repair_frame index d))) \<and>
           ((\<forall>k. \<not> write_error h k) \<longrightarrow> earlier = [])"
proof -
  define A where "A = attempt_frames h index imageBytes d"
  define C where "C = repair_frame index d"
  have A: "A = batch_frame (elgato_to_ajazz index (Columns d)) (length imageBytes) #
      chunk_frames h imageBytes"
    by (simp add: A_def attempt_frames_def)
  have "\<exists>earlier. written d' = written d @ earlier @ A \<and>
      (earlier = [] \<or>
       (\<exists>m1 k1. 0 < m1 \<and> m1 \<le> length A \<and> write_error h (length (written d) + m1 - 1) \<and>
          1 \<le> k1 \<and> k1 \<le> 3 \<and> earlier = take m1 A @ replicate k1 C) \<or>
       (\<exists>m1 k1 m2 k2. 0 < m1 \<and> m1 \<le> length A \<and>
          write_error h (length (written d) + m1 - 1) \<and> 1 \<le> k1 \<and> k1 \<le> 3 \<and>
          0 < m2 \<and> m2 \<le> length A \<and>
          write_error h (length (written d) + m1 + k1 + m2 - 1) \<and> 1 \<le> k2 \<and> k2 \<le> 3 \<and>
          earlier = take m1 A @ replicate k1 C @ take m2 A @ replicate k2 C))"
    using cmdBatchRetry_shapes [OF SetImage_success_upload [OF assms]]
    unfolding A_def [symmetric] C_def [symmetric]
  proof (elim disjE exE conjE)
    assume "written d' = written d @ A"
    then show ?thesis
      by (intro exI [of _ "[]"]) simp
  next
    fix m1 k1
    assume "0 < m1" "m1 \<le> length A" "write_error h (length (written d) + m1 - 1)"
      "1 \<le> k1" "k1 \<le> 3" "written d' = written d @ take m1 A @ replicate k1 C @ A"
    then show ?thesis
      by (intro exI [of _ "take m1 A @ replicate k1 C"] conjI disjI2 disjI1
          exI [of _ m1] exI [of _ k1]) simp_all
  next
    fix m1 k1 m2 k2 m3
    assume "0 < m1" "m1 \<le> length A" "write_error h (length (written d) + m1 - 1)"
      "1 \<le> k1" "k1 \<le> 3" "0 < m2" "m2 \<le> length A"
      "write_error h (length (written d) + m1 + k1 + m2 - 1)" "1 \<le> k2" "k2 \<le> 3"
      "written d' = written d @ take m1 A @ replicate k1 C @ take m2 A @ replicate k2 C @
         take m3 A"
      "m3 = length A"
    then show ?thesis
      by (intro exI [of _ "take m1 A @ replicate k1 C @ take m2 A @ replicate k2 C"] conjI
          disjI2 exI [of _ m1] exI [of _ k1] exI [of _ m2] exI [of _ k2]) simp_all
  qed simp
  then obtain earlier where log: "written d' = written d @ earlier @ A"
    and shape: "earlier = [] \<or>
       (\<exists>m1 k1. 0 < m1 \<and> m1 \<le> length A \<and> write_error h (length (written d) + m1 - 1) \<and>
          1 \<le> k1 \<and> k1 \<le> 3 \<and> earlier = take m1 A @ replicate k1 C) \<or>
       (\<exists>m1 k1 m2 k2. 0 < m1 \<and> m1 \<le> length A \<and>
          write_error h (length (written d) + m1 - 1) \<and> 1 \<le> k1 \<and> k1 \<le> 3 \<and>
          0 < m2 \<and> m2 \<le> length A \<and>
          write_error h (length (written d) + m1 + k1 + m2 - 1) \<and> 1 \<le> k2 \<and> k2 \<le> 3 \<and>
          earlier = take m1 A @ replicate k1 C @ take m2 A @ replicate k2 C)"
    by blast
  from shape have quiet: "(\<forall>k. \<not> write_error h k) \<longrightarrow> earlier = []"
    by blast
  show ?thesis
  proof (intro exI conjI)
    show "written d' = written d @ earlier @
        batch_frame (elgato_to_ajazz index (Columns d)) (length imageBytes) #
        chunk_frames h imageBytes"
      using log by (simp add: A)
    show "length (chunk_frames h imageBytes) = (length imageBytes + 511) div 512"
      by (simp add: length_chunk_frames chunk_count_def)
    show "earlier = [] \<or>
       (\<exists>m1 k1. 0 < m1 \<and>
          m1 \<le> length (batch_frame (elgato_to_ajazz index (Columns d)) (length imageBytes) #
                     chunk_frames h imageBytes) \<and>
          write_error h (length (written d) + m1 - 1) \<and> 1 \<le> k1 \<and> k1 \<le> 3 \<and>
          earlier = take m1 (batch_frame (elgato_to_ajazz index (Columns d)) (length imageBytes) #
                     chunk_frames h imageBytes) @ replicate k1 (repair_frame index d)) \<or>
       (\<exists>m1 k1 m2 k2. 0 < m1 \<and>
          m1 \<le> length (batch_frame (elgato_to_ajazz index (Columns d)) (length imageBytes) #
                     chunk_frames h imageBytes) \<and>
          write_error h (length (written d) + m1 - 1) \<and> 1 \<le> k1 \<and> k1 \<le> 3 \<and>
          0 < m2 \<and>
          m2 \<le> length (batch_frame (elgato_to_ajazz index (Columns d)) (length imageBytes) #
                     chunk_frames h imageBytes) \<and>
          write_error h (length (written d) + m1 + k1 + m2 - 1) \<and> 1 \<le> k2 \<and> k2 \<le> 3 \<and>
          earlier = take m1 (batch_frame (elgato_to_ajazz index (Columns d)) (length imageBytes) #
                     chunk_frames h imageBytes) @ replicate k1 (repair_frame index d) @
            take m2 (batch_frame (elgato_to_ajazz index (Columns d)) (length imageBytes) #
                     chunk_frames h imageBytes) @ replicate k2 (repair_frame index d))"
      using shape unfolding A C_def .
    show "(\<forall>k. \<not> write_error h k) \<longrightarrow> earlier = []"
      by (rule quiet)
  qed (simp_all add: batch_frame_tag batch_frame_target)
qed

theorem SetImage_frames_witness:
  "\<exists>d' earlier header chunks.
     SetImage flaky_host 0 (black_image 2) example_deck = (d', Success) \<and>
     written d' = written example_deck @ earlier @ header # chunks \<and>
     header ! 12 = elgato_to_ajazz 0 (Columns example_deck) \<and>
     chunks = chunk_frames flaky_host (Pix (black_image 2)) \<and>
     length chunks = (length (Pix (black_image 2)) + 511) div 512"
proof -
  have "Dx (black_image 2) = int (Pixels example_deck)"
    "Dy (black_image 2) = int (Pixels example_deck)"
    "toImageFormat example_deck (flipImage example_deck (black_image 2)) =
       Inr (Pix (black_image 2))"
    by (simp_all add: example_deck_def black_image_def)
  from SetImage_frames [OF this flaky_SetImage] flaky_SetImage show ?thesis
    by blast
qed

text \<open>
  C3 as the claim words it fails twice. At index 0 the header targets
  \<open>elgato_to_ajazz 0 = 13\<close>, the top-left key \<^verbatim>\<open>0d\<close> of the table in the source, and not
  \<open>elgato_to_ajazz (0 + 1) = 10\<close>. And on the host whose second write fails,
  \<^verbatim>\<open>SetImage\<close> succeeds after one retry, having written two batch headers.
\<close>

theorem SetImage_target_counterexample:
  "hd (written (fst (SetImage example_host 0 (black_image 2) example_deck))) ! 12 = 13 \<and>
   elgato_to_ajazz (0 + 1) (Columns example_deck) = 10 \<and>
   elgato_to_ajazz 0 (Columns example_deck) = 13 \<and>
   snd (SetImage flaky_host 0 (black_image 2) example_deck) = Success \<and>
   written (fst (SetImage flaky_host 0 (black_image 2) example_deck)) =
     [batch_frame 13 16, framed flaky_host (Pix (black_image 2)), clear_frame 13,
      batch_frame 13 16, framed flaky_host (Pix (black_image 2))] \<and>
   take 8 (batch_frame 13 16) = [0x43, 0x52, 0x54, 0x00, 0x00, 0x42, 0x41, 0x54]"
proof -
  have "SetImage example_host 0 (black_image 2) example_deck =
      (example_deck\<lparr>written := written example_deck @
          batch_frame (elgato_to_ajazz 0 (Columns example_deck)) (length (Pix (black_image 2))) #
          chunk_frames example_host (Pix (black_image 2))\<rparr>, Success)"
    by (rule SetImage_ok) (simp_all add: example_deck_def example_host_def black_image_def)
  then have "hd (written (fst (SetImage example_host 0 (black_image 2) example_deck))) ! 12 = 13"
    "elgato_to_ajazz (0 + 1) (Columns example_deck) = 10"
    "elgato_to_ajazz 0 (Columns example_deck) = 13"
    by (simp_all add: example_deck_def batch_frame_target elgato_to_ajazz_def elgato_table_def)
  then show ?thesis
    by (simp add: flaky_SetImage batch_frame_tag)
qed

section \<open>Properties of the validation\<close>

lemma retry_from_rejected:
  "f s = (s, Failure e) \<Longrightarrow> retry_from f no_hook n left s = (s, Failure e)"
  by (induction left arbitrary: n) (simp_all add: no_hook_def)

lemma cmdLogo_rejects:
  "length data \<noteq> 854 * 480 * 3 \<Longrightarrow>
     cmdLogo h data d = (d, Failure (InvalidDataLength (length data)))"
  by (simp add: cmdLogo_def)

lemma retry_from_counted_rejected:
  assumes "f s = (s, Failure e)"
  shows "retry_from (counted f) no_hook k left (s, n) = ((s, Suc (n + left)), Failure e)"
  using assms
  by (induction left arbitrary: k n) (simp_all add: counted_def no_hook_def)

lemma retry_Do_counted_rejected:
  assumes "f s = (s, Failure e)" and "0 < attempts"
  shows "retry_Do (counted f) no_hook attempts (s, 0) = ((s, attempts), Failure e)"
  using assms by (simp add: retry_Do_def retry_from_counted_rejected)

lemma retry_from_counted:
  "\<exists>m. retry_from (counted f) no_hook k left (s, n) =
        ((fst (retry_from f no_hook k left s), m), snd (retry_from f no_hook k left s))"
proof (induction left arbitrary: k s n)
  case 0
  show ?case by (simp add: counted_def split: prod.split)
next
  case (Suc left)
  obtain s' r where run: "f s = (s', r)" by (cases "f s")
  show ?case
  proof (cases r)
    case (Failure e)
    with run Suc [of "Suc k" s' "Suc n"] show ?thesis
      by (simp add: counted_def no_hook_def)
  qed (use run in \<open>simp_all add: counted_def\<close>)
qed

lemma cmdBatchRetry_func_writes:
  "written (fst (cmdBatchRetry_func h index data d)) \<noteq> written d"
proof -
  obtain d1 r where run: "cmdBatchRetry_func h index data d = (d1, r)"
    by (cases "cmdBatchRetry_func h index data d")
  from cmdBatchRetry_func_shape [OF run] obtain m where "0 < m"
    "m \<le> length (attempt_frames h index data d)"
    "d1 = d\<lparr>written := written d @ take m (attempt_frames h index data d)\<rparr>"
    by blast
  then have "length (written d1) = length (written d) + m"
    by simp
  with \<open>0 < m\<close> run show ?thesis
    by auto
qed

text \<open>
  C6, as the code has it. A logo payload of the wrong length is rejected by \<^verbatim>\<open>cmdLogo\<close>
  with a validation error and nothing is written. Through \<^verbatim>\<open>cmdLogoRetry\<close> the error is
  retried: with a positive attempt count the wrapper runs \<^verbatim>\<open>cmdLogo\<close>, length check
  included, once per attempt, and returns the validation error after the last, still
  without a write. An image of the wrong size is rejected by \<^verbatim>\<open>SetImage\<close> with a
  validation error, the session untouched: the function that \<^verbatim>\<open>cmdBatchRetry\<close> retries
  writes at least its header every time it runs, so it has not run at all, and this error
  is never retried.
\<close>

theorem validation_errors_send_nothing:
  "(length data \<noteq> 854 * 480 * 3 \<longrightarrow>
      cmdLogo h data d = (d, Failure (InvalidDataLength (length data))) \<and>
      (0 < retryAttempts \<longrightarrow>
         cmdLogoRetry h data retryAttempts d = (d, Failure (InvalidDataLength (length data))) \<and>
         retry_Do (counted (cmdLogo h data)) no_hook retryAttempts (d, 0) =
           ((d, retryAttempts), Failure (InvalidDataLength (length data))))) \<and>
   (Dx img \<noteq> int (Pixels d) \<or> Dy img \<noteq> int (Pixels d) \<longrightarrow>
      SetImage h index img d = (d, Failure (WrongDimensions (Pixels d)))) \<and>
   written (fst (cmdBatchRetry_func h index imageBytes d)) \<noteq> written d"
  by (auto simp: cmdLogo_rejects cmdLogoRetry_def retry_Do_def retry_from_rejected SetImage_def
      retry_from_counted_rejected cmdBatchRetry_func_writes)

theorem validation_errors_send_nothing_witness:
  "cmdLogo flaky_host [1, 2, 3] example_deck = (example_deck, Failure (InvalidDataLength 3)) \<and>
   cmdLogoRetry flaky_host [1, 2, 3] 3 example_deck =
     (example_deck, Failure (InvalidDataLength 3)) \<and>
   retry_Do (counted (cmdLogo flaky_host [1, 2, 3])) no_hook 3 (example_deck, 0) =
     ((example_deck, 3), Failure (InvalidDataLength 3)) \<and>
   SetImage flaky_host 0 (black_image 3) example_deck =
     (example_deck, Failure (WrongDimensions 2))"
  using validation_errors_send_nothing
    [of "[1, 2, 3]" flaky_host example_deck 3 "black_image 3" 0]
  by (simp add: black_image_def example_deck_def)

text \<open>
  C6 as the claim words it fails for the logo: \<^verbatim>\<open>cmdLogoRetry\<close> is \<^verbatim>\<open>retry.Do\<close> around
  \<^verbatim>\<open>cmdLogo\<close>, and with the attempt count 3 a payload of 3 bytes is checked and rejected
  three times.
\<close>

theorem validation_error_retried_counterexample:
  "cmdLogoRetry flaky_host [1, 2, 3] 3 example_deck =
     retry_Do (cmdLogo flaky_host [1, 2, 3]) no_hook 3 example_deck \<and>
   retry_Do (counted (cmdLogo flaky_host [1, 2, 3])) no_hook 3 (example_deck, 0) =
     ((example_deck, 3), Failure (InvalidDataLength 3))"
  by (simp add: cmdLogoRetry_def retry_Do_counted_rejected cmdLogo_rejects)

section \<open>Properties of the brightness and of sleep\<close>

lemma retry3_repeat:
  assumes step: "\<And>s. \<exists>k r. 1 \<le> k \<and> k \<le> b \<and>
      f s = (s\<lparr>written := written s @ replicate k c\<rparr>, r)"
  shows "\<exists>k r. 1 \<le> k \<and> k \<le> 3 * b \<and>
      retry_Do f no_hook 3 (s :: DeviceAjazz) = (s\<lparr>written := written s @ replicate k c\<rparr>, r)"
proof -
  have unroll: "retry_Do f no_hook 3 s =
      (case f s of
         (s1, Failure e1) \<Rightarrow>
           (case f s1 of (s2, Failure e2) \<Rightarrow> f s2 | (s2, r) \<Rightarrow> (s2, r))
       | (s1, r) \<Rightarrow> (s1, r))"
    by (simp add: retry_Do_def numeral_2_eq_2 no_hook_def split: prod.split outcome.split)
  from step [of s] obtain k1 r1 where 1: "1 \<le> k1" "k1 \<le> b"
    "f s = (s\<lparr>written := written s @ replicate k1 c\<rparr>, r1)"
    by blast
  define s1 where "s1 = s\<lparr>written := written s @ replicate k1 c\<rparr>"
  from step [of s1] obtain k2 r2 where 2: "1 \<le> k2" "k2 \<le> b"
    "f s1 = (s\<lparr>written := written s @ replicate (k1 + k2) c\<rparr>, r2)"
    by (auto simp: s1_def replicate_add)
  define s2 where "s2 = s\<lparr>written := written s @ replicate (k1 + k2) c\<rparr>"
  from step [of s2] obtain k3 r3 where 3: "1 \<le> k3" "k3 \<le> b"
    "f s2 = (s\<lparr>written := written s @ replicate (k1 + k2 + k3) c\<rparr>, r3)"
    by (auto simp: s2_def replicate_add)
  show ?thesis
  proof (cases r1)
    case (Failure e1)
    show ?thesis
    proof (cases r2)
      case fail2: (Failure e2)
      have "retry_Do f no_hook 3 s = (s\<lparr>written := written s @ replicate (k1 + k2 + k3) c\<rparr>, r3)"
        using 1(3) 2(3) 3(3) Failure fail2 by (simp add: unroll s1_def s2_def)
      moreover have "1 \<le> k1 + k2 + k3" "k1 + k2 + k3 \<le> 3 * b"
        using 1 2 3 by simp_all
      ultimately show ?thesis by blast
    next
      case Success
      have "retry_Do f no_hook 3 s = (s\<lparr>written := written s @ replicate (k1 + k2) c\<rparr>, r2)"
        using 1(3) 2(3) Failure Success by (simp add: unroll s1_def)
      moreover have "1 \<le> k1 + k2" "k1 + k2 \<le> 3 * b"
        using 1 2 by simp_all
      ultimately show ?thesis by blast
    next
      case (Abort x)
      have "retry_Do f no_hook 3 s = (s\<lparr>written := written s @ replicate (k1 + k2) c\<rparr>, r2)"
        using 1(3) 2(3) Failure Abort by (simp add: unroll s1_def)
      moreover have "1 \<le> k1 + k2" "k1 + k2 \<le> 3 * b"
        using 1 2 by simp_all
      ultimately show ?thesis by blast
    qed
  next
    case Success
    have "retry_Do f no_hook 3 s = (s\<lparr>written := written s @ replicate k1 c\<rparr>, r1)"
      using 1(3) Success by (simp add: unroll)
    moreover have "k1 \<le> 3 * b"
      using 1 by simp
    ultimately show ?thesis using 1(1) by blast
  next
    case (Abort x)
    have "retry_Do f no_hook 3 s = (s\<lparr>written := written s @ replicate k1 c\<rparr>, r1)"
      using 1(3) Abort by (simp add: unroll)
    moreover have "k1 \<le> 3 * b"
      using 1 by simp
    ultimately show ?thesis using 1(1) by blast
  qed
qed

lemma cmdLight_shape:
  "\<exists>k r. 1 \<le> k \<and> k \<le> 3 * 1 \<and>
     cmdLight h b d = (d\<lparr>written := written d @ replicate k (light_frame b)\<rparr>, r)"
  unfolding cmdLight_def WriteRetry_def
proof (rule retry3_repeat)
  fix s
  have "cmdWrite h (light_frame b) s =
      (s\<lparr>written := written s @ replicate 1 (light_frame b)\<rparr>,
       if write_error h (length (written s)) then Failure (TransportError (length (written s)))
       else Success)"
    by (simp add: cmdWrite_command length_light_frame hd_light_frame device_Write_def)
  then show "\<exists>k r. 1 \<le> k \<and> k \<le> 1 \<and>
      cmdWrite h (light_frame b) s = (s\<lparr>written := written s @ replicate k (light_frame b)\<rparr>, r)"
    by blast
qed

lemma cmdLightRetry_shape:
  "\<exists>k r. 1 \<le> k \<and> k \<le> 9 \<and>
     cmdLightRetry h b 3 d = (d\<lparr>written := written d @ replicate k (light_frame b)\<rparr>, r)"
proof -
  have "\<exists>k r. 1 \<le> k \<and> k \<le> 3 * 3 \<and>
     retry_Do (cmdLight h b) no_hook 3 d =
       (d\<lparr>written := written d @ replicate k (light_frame b)\<rparr>, r)"
    by (rule retry3_repeat) (use cmdLight_shape in simp)
  then show ?thesis
    by (simp add: cmdLightRetry_def)
qed


lemma clamp_min: "(if percent > 100 then 100 else percent) = min percent (100 :: byte)"
  by (auto simp: min_def)

lemma SetBrightness_deferred:
  assumes "asleep d" and "percent > 0" and "\<not> sleepMutex d"
  shows "SetBrightness h percent d =
           (d\<lparr>brightness := min percent 100, preSleepBrightness := min percent 100\<rparr>, Success)"
proof -
  from assms(2) have "min percent 100 > 0"
    by (simp add: min_def)
  with assms(1,3) show ?thesis
    by (simp add: SetBrightness_def clamp_min Let_def)
qed

lemma SetBrightness_immediate:
  assumes "\<not> (asleep d \<and> percent > 0)"
  shows "\<exists>k r. 1 \<le> k \<and> k \<le> 9 \<and>
           SetBrightness h percent d =
             (d\<lparr>brightness := min percent 100,
                written := written d @ replicate k (light_frame (min percent 100))\<rparr>, r)"
proof -
  have "\<not> (asleep d \<and> min percent 100 > 0)"
    using assms by (auto simp: min_def word_gt_0)
  then have "SetBrightness h percent d =
      cmdLightRetry h (min percent 100) 3 (d\<lparr>brightness := min percent 100\<rparr>)"
    by (auto simp: SetBrightness_def clamp_min Let_def)
  then show ?thesis
    using cmdLightRetry_shape [of h "min percent 100" "d\<lparr>brightness := min percent 100\<rparr>"]
    by auto
qed

text \<open>
  C8, as the code has it. \<^verbatim>\<open>SetBrightness\<close> clamps to 100 and stores the value in
  \<^verbatim>\<open>d.brightness\<close> first. Called on a panel that is asleep with a percentage above 0
  (and not from inside \<^verbatim>\<open>Sleep\<close> or \<^verbatim>\<open>Wake\<close>, which hold the sleep mutex), it stores
  the value as the remembered pre-sleep brightness too, changes nothing else and writes
  nothing. In every other case it writes the \<^verbatim>\<open>LIG\<close> frame with the clamped value at
  offset 10 at once, one to nine times as its retries go, and nothing else.
\<close>

theorem SetBrightness_asleep_or_immediate:
  "(asleep d \<and> percent > 0 \<and> \<not> sleepMutex d \<longrightarrow>
      SetBrightness h percent d =
        (d\<lparr>brightness := min percent 100, preSleepBrightness := min percent 100\<rparr>, Success)) \<and>
   (\<not> (asleep d \<and> percent > 0) \<longrightarrow>
      (\<exists>k r. 1 \<le> k \<and> k \<le> 9 \<and>
         SetBrightness h percent d =
           (d\<lparr>brightness := min percent 100,
              written := written d @ replicate k (light_frame (min percent 100))\<rparr>, r))) \<and>
   take 8 (light_frame (min percent 100)) = [0x43, 0x52, 0x54, 0x00, 0x00, 0x4c, 0x49, 0x47] \<and>
   light_frame (min percent 100) ! 10 = min percent 100"
  using SetBrightness_deferred [of d percent h] SetBrightness_immediate [of d percent h]
  by (simp add: light_frame_tag light_frame_level)

theorem SetBrightness_asleep_or_immediate_witness:
  "SetBrightness example_host 150 asleep_deck =
     (asleep_deck\<lparr>brightness := 100, preSleepBrightness := 100\<rparr>, Success) \<and>
   (\<exists>k r. 1 \<le> k \<and> k \<le> 9 \<and>
      SetBrightness example_host 150 example_deck =
        (example_deck\<lparr>brightness := 100,
           written := written example_deck @ replicate k (light_frame 100)\<rparr>, r))"
  using SetBrightness_asleep_or_immediate [of asleep_deck 150 example_host]
    SetBrightness_asleep_or_immediate [of example_deck 150 example_host]
  by (simp add: asleep_deck_def example_deck_def)

text \<open>
  C8 as the claim words it fails: on the sleeping panel with the stored brightness 0,
  \<^verbatim>\<open>SetBrightness(50)\<close> leaves the stored brightness at 50, so the remembered pre-sleep
  brightness is not the only field it updates.
\<close>

theorem SetBrightness_asleep_counterexample:
  "asleep asleep_deck \<and> brightness asleep_deck = 0 \<and>
   brightness (fst (SetBrightness example_host 50 asleep_deck)) = 50 \<and>
   fst (SetBrightness example_host 50 asleep_deck) \<noteq> asleep_deck\<lparr>preSleepBrightness := 50\<rparr>"
proof -
  have run: "SetBrightness example_host 50 asleep_deck =
      (asleep_deck\<lparr>brightness := 50, preSleepBrightness := 50\<rparr>, Success)"
    using SetBrightness_deferred [of asleep_deck 50 example_host]
    by (simp add: asleep_deck_def example_deck_def)
  have "brightness (asleep_deck\<lparr>brightness := 50, preSleepBrightness := 50\<rparr>) \<noteq>
        brightness (asleep_deck\<lparr>preSleepBrightness := 50\<rparr>)"
    by (simp add: asleep_deck_def)
  then have "asleep_deck\<lparr>brightness := 50, preSleepBrightness := 50\<rparr> \<noteq>
        asleep_deck\<lparr>preSleepBrightness := 50\<rparr>"
    by metis
  with run show ?thesis
    by (simp add: asleep_deck_def)
qed

lemma SetBrightness_keeps:
  assumes "SetBrightness h percent d = (d', r)"
  shows "asleep d' = asleep d \<and> sleepMutex d' = sleepMutex d \<and>
         brightness d' = min percent 100 \<and>
         (sleepMutex d \<longrightarrow> preSleepBrightness d' = preSleepBrightness d)"
proof (cases "asleep d \<and> min percent 100 > 0")
  case True
  with assms show ?thesis
    by (auto simp: SetBrightness_def clamp_min Let_def split: if_splits)
next
  case False
  then have "SetBrightness h percent d =
      cmdLightRetry h (min percent 100) 3 (d\<lparr>brightness := min percent 100\<rparr>)"
    by (auto simp: SetBrightness_def clamp_min Let_def)
  with assms cmdLightRetry_shape [of h "min percent 100" "d\<lparr>brightness := min percent 100\<rparr>"]
  show ?thesis
    by auto
qed





lemma SetBrightness_bounded:
  "SetBrightness h percent d = (d', r) \<Longrightarrow> brightness d' \<le> 100"
  using SetBrightness_keeps [of h percent d d' r] by simp










text \<open>
  The fades of the exact ramp end for every positive number of steps and every level up
  to 127, so the hypotheses of the theorem hold there for every brightness up to 100.
\<close>

lemma sint_small:
  fixes w :: byte
  assumes "w \<le> 127"
  shows "sint w = uint w"
proof -
  have "uint w \<le> 127"
    using assms by (simp add: word_le_def)
  moreover have "- 128 \<le> uint w"
    using uint_ge_0 [of w] by linarith
  ultimately have "signed_take_bit 7 (uint w) = uint w"
    by (intro signed_take_bit_int_eq_self) simp_all
  then show ?thesis
    by (simp add: sint_uint)
qed

lemma ideal_ramp_ends:
  assumes "fade_current h = ideal_ramp ticks" and "0 < ticks" and "end' \<le> 127"
  shows "fade_ends h start end' duration"
proof -
  have "fade_current h start end' duration (nat ticks) = (uint end', end')"
    using assms(2) by (simp add: assms(1) ideal_ramp_def)
  then have "fade_stops h start end' duration (nat ticks)"
    by (simp add: fade_stops_def sint_small [OF assms(3)])
  then show ?thesis
    unfolding fade_ends_def by blast
qed

section \<open>Properties of Clear\<close>

lemma SetImage_attempt:
  assumes "Dx img = int (Pixels d)" and "Dy img = int (Pixels d)"
    and "toImageFormat d (flipImage d img) = Inr imageBytes"
    and "\<forall>k. \<not> write_error h k"
  shows "SetImage h index img d =
           (d\<lparr>written := written d @ attempt_frames h index imageBytes d\<rparr>, Success)"
  using SetImage_ok [OF assms] by (simp add: attempt_frames_def)

lemma Clear_loop_uploads:
  assumes ok: "\<forall>k. \<not> write_error h k"
    and size: "Dx img = int (Pixels d)" "Dy img = int (Pixels d)"
    and conv: "toImageFormat d (flipImage d img) = Inr imageBytes"
    and bound: "unat (Columns d * Rows d) < 255"
  shows "unat i \<le> Suc (unat (Columns d * Rows d)) \<Longrightarrow>
         Clear_loop h img i (d\<lparr>written := w\<rparr>) =
           Some (d\<lparr>written := w @ concat (map (\<lambda>j. attempt_frames h (word_of_nat j) imageBytes d)
                   [unat i..<Suc (unat (Columns d * Rows d))])\<rparr>, Success)"
proof (induction "Suc (unat (Columns d * Rows d)) - unat i" arbitrary: i w)
  case 0
  then have "unat i = Suc (unat (Columns d * Rows d))"
    by simp
  then have "\<not> i \<le> Columns d * Rows d"
    by (simp add: word_le_nat_alt)
  then show ?case
    using 0 by (subst Clear_loop.simps) (simp del: upt_Suc)
next
  case (Suc n)
  then have le: "unat i \<le> unat (Columns d * Rows d)"
    by simp
  then have cond: "i \<le> Columns d * Rows d"
    by (simp add: word_le_nat_alt)
  have "unat i < 255"
    using le bound by simp
  then have next_i: "unat (i + 1) = Suc (unat i)"
    by (simp add: unat_word_ariths)
  have upload: "SetImage h i img (d\<lparr>written := w\<rparr>) =
      (d\<lparr>written := w @ attempt_frames h i imageBytes d\<rparr>, Success)"
    using SetImage_attempt [of img "d\<lparr>written := w\<rparr>" imageBytes h i] ok size conv
    by simp
  have rest: "Clear_loop h img (i + 1) (d\<lparr>written := w @ attempt_frames h i imageBytes d\<rparr>) =
      Some (d\<lparr>written := (w @ attempt_frames h i imageBytes d) @
         concat (map (\<lambda>j. attempt_frames h (word_of_nat j) imageBytes d)
           [unat (i + 1)..<Suc (unat (Columns d * Rows d))])\<rparr>, Success)"
    using Suc.hyps(2) le by (intro Suc.hyps(1)) (simp_all add: next_i del: upt_Suc)
  have range: "[unat i..<Suc (unat (Columns d * Rows d))] =
      unat i # [Suc (unat i)..<Suc (unat (Columns d * Rows d))]"
    using le by (simp add: upt_conv_Cons del: upt_Suc)
  show ?case
    by (subst Clear_loop.simps) (simp add: cond upload rest next_i range del: upt_Suc)
qed

lemma Clear_uploads:
  assumes "\<forall>k. \<not> write_error h k"
    and "toImageFormat d (flipImage d (black_image (Pixels d))) = Inr imageBytes"
    and "unat (Columns d * Rows d) < 255"
  shows "Clear h d =
           Some (d\<lparr>written := written d @
                   concat (map (\<lambda>j. attempt_frames h (word_of_nat j) imageBytes d)
                     [0..<Suc (unat (Columns d * Rows d))])\<rparr>, Success)"
  using Clear_loop_uploads [of h "black_image (Pixels d)" d imageBytes 0 "written d"] assms
  by (simp add: Clear_def black_image_def del: upt_Suc)

text \<open>
  C9 on the sample panel of 6 by 3 keys: \<^verbatim>\<open>Clear\<close> uploads the black image 19 times, for
  the indices 0 to 18. Index 18 is \<open>Keys\<close>, one past the last slot, and its header targets
  the physical key 18, which the upload for index 17 has already set.
\<close>

theorem Clear_uploads_one_index_too_many:
  "Clear example_host example_deck =
     Some (example_deck\<lparr>written :=
             concat (map (\<lambda>j. attempt_frames example_host (word_of_nat j)
                               (Pix (black_image 2)) example_deck) [0..<19])\<rparr>, Success) \<and>
   Keys example_deck = 18 \<and> Columns example_deck * Rows example_deck = 18 \<and>
   hd (attempt_frames example_host 18 (Pix (black_image 2)) example_deck) ! 12 = 18 \<and>
   hd (attempt_frames example_host 17 (Pix (black_image 2)) example_deck) ! 12 = 18"
proof -
  have "Clear example_host example_deck =
      Some (example_deck\<lparr>written := written example_deck @
         concat (map (\<lambda>j. attempt_frames example_host (word_of_nat j)
                           (Pix (black_image 2)) example_deck)
           [0..<Suc (unat (Columns example_deck * Rows example_deck))])\<rparr>, Success)"
    by (rule Clear_uploads) (simp_all add: example_host_def example_deck_def)
  moreover have "Suc (unat (Columns example_deck * Rows example_deck)) = 19"
    by (simp add: example_deck_def)
  moreover have "written example_deck = []"
    by (simp add: example_deck_def)
  ultimately have "Clear example_host example_deck =
      Some (example_deck\<lparr>written :=
         concat (map (\<lambda>j. attempt_frames example_host (word_of_nat j)
                           (Pix (black_image 2)) example_deck) [0..<19])\<rparr>, Success)"
    by (simp del: upt_Suc)
  moreover have "Keys example_deck = 18" "Columns example_deck * Rows example_deck = 18"
    by (simp_all add: example_deck_def)
  moreover have
    "hd (attempt_frames example_host 18 (Pix (black_image 2)) example_deck) ! 12 = 18"
    "hd (attempt_frames example_host 17 (Pix (black_image 2)) example_deck) ! 12 = 18"
    by (simp_all add: attempt_frames_def batch_frame_target elgato_to_ajazz_def
        elgato_table_def)
  ultimately show ?thesis
    by blast
qed

end
